theory Spec2Isabelle
  imports Main "HOL-Library.Multiset"
begin

section \<open>Strings\<close>

text \<open>
  A JavaScript string is modelled as a list of 8-bit characters, one per code unit; code
  units from 0x100 on are outside the model. The one such character of the sources, the
  dash U+2014 in some message texts, is written as its three UTF-8 bytes; no operation
  below inspects it. Case conversion and the classes \<open>\s\<close>, \<open>\w\<close> and \<open>\d\<close> of the regular
  expressions are those of ECMAScript on this range, with case conversion limited to the
  letters A to Z.
\<close>

definition upper_letters :: string where
  "upper_letters = ''ABCDEFGHIJKLMNOPQRSTUVWXYZ''"

definition lower_letters :: string where
  "lower_letters = ''abcdefghijklmnopqrstuvwxyz''"

definition digit_chars :: string where
  "digit_chars = ''0123456789''"

definition lower_char :: "char \<Rightarrow> char" where
  "lower_char c = (case map_of (zip upper_letters lower_letters) c of Some d \<Rightarrow> d | None \<Rightarrow> c)"

definition upper_char :: "char \<Rightarrow> char" where
  "upper_char c = (case map_of (zip lower_letters upper_letters) c of Some d \<Rightarrow> d | None \<Rightarrow> c)"

definition toLowerCase :: "string \<Rightarrow> string" where
  "toLowerCase s = map lower_char s"

definition toUpperCase :: "string \<Rightarrow> string" where
  "toUpperCase s = map upper_char s"

definition is_space :: "char \<Rightarrow> bool" where
  "is_space c \<longleftrightarrow> c \<in> set [CHR 0x09, CHR 0x0A, CHR 0x0B, CHR 0x0C, CHR 0x0D, CHR 0x20, CHR 0xA0]"

definition is_digit :: "char \<Rightarrow> bool" where
  "is_digit c \<longleftrightarrow> c \<in> set digit_chars"

definition is_word :: "char \<Rightarrow> bool" where
  "is_word c \<longleftrightarrow> c \<in> set (lower_letters @ upper_letters @ digit_chars @ ''_'')"

definition trim :: "string \<Rightarrow> string" where
  "trim s = rev (dropWhile is_space (rev (dropWhile is_space s)))"

text \<open>\<open>String(n)\<close> for a non-negative integer: its decimal digits.\<close>

definition digit_char :: "nat \<Rightarrow> char" where
  "digit_char n = digit_chars ! (n mod 10)"

fun show_nat :: "nat \<Rightarrow> string" where
  "show_nat n = (if n < 10 then [digit_char n] else show_nat (n div 10) @ [digit_char n])"

declare show_nat.simps [simp del]

text \<open>\<open>lines.join('\n')\<close>.\<close>

fun join_lines :: "string list \<Rightarrow> string" where
  "join_lines [] = []"
| "join_lines [l] = l"
| "join_lines (l # m # ls) = l @ CHR 0x0A # join_lines (m # ls)"

text \<open>A template literal prints an undefined value as the word undefined.\<close>

definition show_opt :: "string option \<Rightarrow> string" where
  "show_opt v = (case v of None \<Rightarrow> ''undefined'' | Some s \<Rightarrow> s)"

section \<open>Findings, the file system and handler results\<close>

text \<open>
  A finding as a scanner emits it. The scanners emit JSON objects; the model keeps their
  fields with the types the scanners give them (the SEO scanners name the impact
  \<open>seoImpact\<close> and set no WCAG fields).
\<close>

record finding =
  severity :: string
  category :: string
  issue_file :: string
  issue_line :: int
  problem :: string
  impact :: string
  recommendedFix :: string
  autoFixPossible :: bool
  wcagCriteria :: "string option"
  wcagLevel :: "string option"

text \<open>A finding as a report lists it: with the identifier and the framework the aggregator adds.\<close>

record issue = finding +
  issue_id :: string
  framework :: string

text \<open>
  The file system is a map from paths to contents together with the sequence of writes
  made so far, the latest last, and the paths that cannot be written: \<open>write_error w p\<close> is
  the message of the error that a write to \<open>p\<close> throws (a directory that does not exist, a
  file that is read-only), if there is one. \<open>fs.writeFileSync\<close> throws that error, which
  is the result \<open>Inl\<close>, or stores the content and records the write; \<open>written p c w\<close>
  is the file system after the write.
\<close>

record world =
  files :: "string \<rightharpoonup> string"
  writes :: "(string \<times> string) list"
  write_error :: "string \<Rightarrow> string option"

definition existsSync :: "string \<Rightarrow> world \<Rightarrow> bool" where
  "existsSync p w \<longleftrightarrow> files w p \<noteq> None"

definition written :: "string \<Rightarrow> string \<Rightarrow> world \<Rightarrow> world" where
  "written p c w = w\<lparr>files := (files w)(p \<mapsto> c), writes := writes w @ [(p, c)]\<rparr>"

definition writeFileSync :: "string \<Rightarrow> string \<Rightarrow> world \<Rightarrow> string + world" where
  "writeFileSync p c w = (case write_error w p of Some m \<Rightarrow> Inl m | None \<Rightarrow> Inr (written p c w))"

text \<open>\<open>path.join(a, b)\<close>, without the normalisation of the result.\<close>

definition path_join :: "string \<Rightarrow> string \<Rightarrow> string" where
  "path_join a b = a @ ''/'' @ b"

text \<open>What a fix handler prints: \<open>{ success, action?, reason? }\<close>.\<close>

record fix_result =
  success :: bool
  action :: "string option"
  reason :: "string option"

definition failure :: "string \<Rightarrow> fix_result" where
  "failure r = \<lparr>success = False, action = None, reason = Some r\<rparr>"

definition succeeded :: "string \<Rightarrow> fix_result" where
  "succeeded a = \<lparr>success = True, action = Some a, reason = None\<rparr>"

section \<open>The fix orchestrators\<close>

text \<open>
  Both \<open>apply-fix.js\<close> scripts run each handler as a child process and parse what it
  prints. The child process, the JSON parser, the clock and the message of the TypeError
  raised by reading a property of null are the environment of the model:
  \<open>execSync env script issue root w\<close> is the outcome of the command line built from the
  script, the serialised finding and the project root, either the message of the error
  \<open>execSync\<close> raises (a non-zero exit, a signal, the 30 second timeout) or the standard
  output, together with the file system the child leaves behind.
  \<open>parse_output\<close> is \<open>JSON.parse\<close> on that output: it raises an error, or gives \<open>null\<close>, or
  gives another value, of which the orchestrator reads the properties \<open>success\<close>,
  \<open>action\<close> and \<open>reason\<close>; a value without one of them, an object or not, has it unset.
\<close>

datatype exec_out = Exec_error string | Exec_stdout string

datatype parsed = Parse_error string | Parsed_null | Parsed fix_result

record env =
  execSync :: "string \<Rightarrow> issue \<Rightarrow> string \<Rightarrow> world \<Rightarrow> exec_out \<times> world"
  parse_output :: "string \<Rightarrow> parsed"
  parse_report :: "string \<Rightarrow> string + issue list"
  typeError :: string
  now :: string

text \<open>The entries of the three result lists.\<close>

record fixed_item =
  fixed_id :: string
  fixed_file :: string
  fixed_problem :: string
  fixed_action :: "string option"
  fixed_dryRun :: bool

record skipped_item =
  skipped_id :: string
  skipped_file :: string
  skipped_problem :: string
  skipped_reason :: "string option"

record manual_item =
  manual_id :: string
  manual_file :: string
  manual_problem :: string
  manual_recommendation :: string
  manual_reason :: string

text \<open>
  A run either prints its result and exits with 0, or prints an error and exits with 1:
  the report of the audit is missing or does not parse, or the fix report cannot be
  written, which the \<open>catch\<close> around \<open>applyFixes\<close> turns into the exit.
\<close>

datatype 'r run = Exit_failure string | Printed 'r

text \<open>\<open>filter.match(/^SEO-\d+$/i)\<close> and \<open>filter.match(/^A11Y-\d+$/i)\<close>, for a prefix in upper case.\<close>

definition is_id_filter :: "string \<Rightarrow> string \<Rightarrow> bool" where
  "is_id_filter prefix f \<longleftrightarrow>
     toUpperCase (take (length prefix) f) = prefix \<and>
     drop (length prefix) f \<noteq> [] \<and> list_all is_digit (drop (length prefix) f)"

text \<open>\<open>generateFixReport\<close>: the two scripts differ in the title and the last line only.\<close>

definition fixed_block :: "fixed_item \<Rightarrow> string list" where
  "fixed_block f =
     [''### '' @ fixed_id f,
      ''- **File:** `'' @ fixed_file f @ ''`'',
      ''- **Problem:** '' @ fixed_problem f,
      ''- **Action:** '' @ show_opt (fixed_action f),
      '''']"

definition skipped_block :: "skipped_item \<Rightarrow> string list" where
  "skipped_block s =
     [''### '' @ skipped_id s,
      ''- **File:** `'' @ skipped_file s @ ''`'',
      ''- **Problem:** '' @ skipped_problem s,
      ''- **Reason:** '' @ show_opt (skipped_reason s),
      '''']"

definition manual_block :: "manual_item \<Rightarrow> string list" where
  "manual_block r =
     [''### '' @ manual_id r,
      ''- **File:** `'' @ manual_file r @ ''`'',
      ''- **Problem:** '' @ manual_problem r,
      ''- **Recommendation:** '' @ manual_recommendation r,
      ''- **Reason:** '' @ manual_reason r,
      '''']"

definition fixReportLines ::
  "string \<Rightarrow> string \<Rightarrow> string \<Rightarrow> string \<Rightarrow>
   fixed_item list \<Rightarrow> skipped_item list \<Rightarrow> manual_item list \<Rightarrow> string list" where
  "fixReportLines title footer date flt fixed skipped manual =
     [title, '''', ''**Generated:** '' @ date, ''**Filter:** '' @ flt, '''',
      ''## Summary'', '''', ''| Status | Count |'', ''|--------|-------|'',
      ''| Fixed | '' @ show_nat (length fixed) @ '' |'',
      ''| Skipped | '' @ show_nat (length skipped) @ '' |'',
      ''| Manual Review | '' @ show_nat (length manual) @ '' |'', '''',
      ''## Fixed Issues'', '''']
     @ (if fixed = [] then [''No issues were fixed.''] else concat (map fixed_block fixed))
     @ ['''', ''## Skipped Issues'', '''']
     @ (if skipped = [] then [''No issues were skipped.''] else concat (map skipped_block skipped))
     @ ['''', ''## Manual Review Required'', '''']
     @ (if manual = [] then [''No issues require manual review.'']
        else concat (map manual_block manual))
     @ [''---'', '''', footer]"

subsection \<open>The SEO orchestrator\<close>

record seo_output =
  seo_dryRun :: bool
  seo_message :: "string option"
  seo_totalTargeted :: "nat option"
  seo_fixed :: "fixed_item list"
  seo_skipped :: "skipped_item list"
  recommendations :: "manual_item list"

definition seo_generateFixReport ::
  "env \<Rightarrow> string \<Rightarrow> string \<Rightarrow> fixed_item list \<Rightarrow> skipped_item list \<Rightarrow> manual_item list \<Rightarrow>
   world \<Rightarrow> string + world" where
  "seo_generateFixReport e root flt fixed skipped recs w =
     writeFileSync (path_join root ''fix-report.md'')
       (join_lines (fixReportLines ''# SEO Fix Report''
          ''*Generated by universal-frontend-seo-plugin*'' (now e) flt fixed skipped recs)) w"

definition seo_scriptMap :: "string \<rightharpoonup> string" where
  "seo_scriptMap = map_of
     [(''title'', ''apply-meta-fix.js''),
      (''meta-description'', ''apply-meta-fix.js''),
      (''headings'', ''apply-heading-fix.js''),
      (''semantic-html'', ''apply-semantic-fix.js''),
      (''images'', ''apply-image-fix.js''),
      (''internal-links'', ''apply-link-fix.js'')]"

text \<open>The value \<open>applyCategoryFix\<close> returns is an object or, when the handler printed null, null.\<close>

definition seo_applyCategoryFix :: "env \<Rightarrow> string \<Rightarrow> issue \<Rightarrow> world \<Rightarrow> fix_result option \<times> world" where
  "seo_applyCategoryFix e root i w =
     (case seo_scriptMap (category i) of
        None \<Rightarrow> (Some (failure (''No fix script for category: '' @ category i)), w)
      | Some script \<Rightarrow>
          (case execSync e script i root w of
             (Exec_error m, w') \<Rightarrow> (Some (failure m), w')
           | (Exec_stdout out, w') \<Rightarrow>
               (case parse_output e (trim out) of
                  Parse_error m \<Rightarrow> (Some (failure m), w')
                | Parsed_null \<Rightarrow> (None, w')
                | Parsed r \<Rightarrow> (Some r, w'))))"

record seo_lists =
  l_fixed :: "fixed_item list"
  l_skipped :: "skipped_item list"
  l_recommendations :: "manual_item list"

definition fixed_entry :: "issue \<Rightarrow> string option \<Rightarrow> bool \<Rightarrow> fixed_item" where
  "fixed_entry i a d =
     \<lparr>fixed_id = issue_id i, fixed_file = issue_file i, fixed_problem = problem i,
      fixed_action = a, fixed_dryRun = d\<rparr>"

definition skipped_entry :: "issue \<Rightarrow> string option \<Rightarrow> skipped_item" where
  "skipped_entry i r =
     \<lparr>skipped_id = issue_id i, skipped_file = issue_file i, skipped_problem = problem i,
      skipped_reason = r\<rparr>"

definition manual_entry :: "issue \<Rightarrow> string \<Rightarrow> manual_item" where
  "manual_entry i r =
     \<lparr>manual_id = issue_id i, manual_file = issue_file i, manual_problem = problem i,
      manual_recommendation = recommendedFix i, manual_reason = r\<rparr>"

definition dry_run_entry :: "issue \<Rightarrow> fixed_item" where
  "dry_run_entry i = fixed_entry i (Some (''Would apply fix: '' @ recommendedFix i)) True"

definition seo_manual_reason :: string where
  "seo_manual_reason = ''Rendering fixes require manual review and cannot be safely auto-applied.''"

definition seo_skip_reason :: string where
  "seo_skip_reason = ''Auto-fix not available for this issue.''"

definition seo_process ::
  "env \<Rightarrow> bool \<Rightarrow> string \<Rightarrow> issue \<Rightarrow> seo_lists \<times> world \<Rightarrow> seo_lists \<times> world" where
  "seo_process e dryRun root i s =
     (let (acc, w) = s in
      if category i = ''rendering'' then
        (acc\<lparr>l_recommendations := l_recommendations acc @ [manual_entry i seo_manual_reason]\<rparr>, w)
      else if \<not> autoFixPossible i then
        (acc\<lparr>l_skipped := l_skipped acc @ [skipped_entry i (Some seo_skip_reason)]\<rparr>, w)
      else if dryRun then
        (acc\<lparr>l_fixed := l_fixed acc @ [dry_run_entry i]\<rparr>, w)
      else
        (case seo_applyCategoryFix e root i w of
           (None, w') \<Rightarrow>
             (acc\<lparr>l_skipped := l_skipped acc @
                [skipped_entry i (Some (''Fix failed: '' @ typeError e))]\<rparr>, w')
         | (Some r, w') \<Rightarrow>
             if success r then
               (acc\<lparr>l_fixed := l_fixed acc @ [fixed_entry i (action r) False]\<rparr>, w')
             else
               (acc\<lparr>l_skipped := l_skipped acc @ [skipped_entry i (reason r)]\<rparr>, w')))"

fun seo_loop ::
  "env \<Rightarrow> bool \<Rightarrow> string \<Rightarrow> issue list \<Rightarrow> seo_lists \<times> world \<Rightarrow> seo_lists \<times> world" where
  "seo_loop e dryRun root [] s = s"
| "seo_loop e dryRun root (i # is) s = seo_loop e dryRun root is (seo_process e dryRun root i s)"

definition seo_targetIssues :: "string \<Rightarrow> issue list \<Rightarrow> issue list" where
  "seo_targetIssues flt allIssues =
     (if toLowerCase flt = ''all'' then allIssues
      else if is_id_filter ''SEO-'' flt then
        filter (\<lambda>i. toUpperCase (issue_id i) = toUpperCase flt) allIssues
      else filter (\<lambda>i. category i = toLowerCase flt) allIssues)"

definition seo_applyFixes :: "env \<Rightarrow> string \<Rightarrow> string \<Rightarrow> bool \<Rightarrow> world \<Rightarrow> seo_output run \<times> world" where
  "seo_applyFixes e root flt dryRun w =
     (case files w (path_join root ''seo-report.json'') of
        None \<Rightarrow> (Exit_failure ''seo-report.json not found. Run seo-audit first.'', w)
      | Some doc \<Rightarrow>
          (case parse_report e doc of
             Inl m \<Rightarrow> (Exit_failure m, w)
           | Inr allIssues \<Rightarrow>
               (let targetIssues = seo_targetIssues flt allIssues in
                if targetIssues = [] then
                  (Printed \<lparr>seo_dryRun = dryRun,
                     seo_message = Some (''No issues found matching filter: '' @ flt),
                     seo_totalTargeted = None,
                     seo_fixed = [], seo_skipped = [], recommendations = []\<rparr>, w)
                else
                  (let (acc, w1) = seo_loop e dryRun root targetIssues
                         (\<lparr>l_fixed = [], l_skipped = [], l_recommendations = []\<rparr>, w)
                   in case (if \<not> dryRun
                            then seo_generateFixReport e root flt (l_fixed acc) (l_skipped acc)
                                   (l_recommendations acc) w1
                            else Inr w1) of
                        Inl m \<Rightarrow> (Exit_failure m, w1)
                      | Inr w2 \<Rightarrow>
                          (Printed \<lparr>seo_dryRun = dryRun, seo_message = None,
                             seo_totalTargeted = Some (length targetIssues),
                             seo_fixed = l_fixed acc, seo_skipped = l_skipped acc,
                             recommendations = l_recommendations acc\<rparr>, w2)))))"


subsection \<open>The accessibility orchestrator\<close>

record a11y_output =
  a11y_dryRun :: bool
  a11y_message :: "string option"
  a11y_totalTargeted :: "nat option"
  a11y_fixed :: "fixed_item list"
  a11y_skipped :: "skipped_item list"
  manualReview :: "manual_item list"

definition a11y_generateFixReport ::
  "env \<Rightarrow> string \<Rightarrow> string \<Rightarrow> fixed_item list \<Rightarrow> skipped_item list \<Rightarrow> manual_item list \<Rightarrow>
   world \<Rightarrow> string + world" where
  "a11y_generateFixReport e root flt fixed skipped manual w =
     writeFileSync (path_join root ''a11y-fix-report.md'')
       (join_lines (fixReportLines ''# Accessibility Fix Report''
          ''*Generated by accessibility-plugin*'' (now e) flt fixed skipped manual)) w"

definition a11y_scriptMap :: "string \<rightharpoonup> string" where
  "a11y_scriptMap = map_of
     [(''semantics'', ''apply-semantics-fix.js''),
      (''accessible-names'', ''apply-names-fix.js''),
      (''images'', ''apply-images-fix.js''),
      (''forms'', ''apply-forms-fix.js''),
      (''aria'', ''apply-aria-fix.js''),
      (''keyboard'', ''apply-keyboard-fix.js''),
      (''patterns'', ''apply-patterns-fix.js'')]"

definition a11y_applyCategoryFix :: "env \<Rightarrow> string \<Rightarrow> issue \<Rightarrow> world \<Rightarrow> fix_result option \<times> world" where
  "a11y_applyCategoryFix e root i w =
     (case a11y_scriptMap (category i) of
        None \<Rightarrow> (Some (failure (''No fix script for category: '' @ category i)), w)
      | Some script \<Rightarrow>
          (case execSync e script i root w of
             (Exec_error m, w') \<Rightarrow> (Some (failure m), w')
           | (Exec_stdout out, w') \<Rightarrow>
               (case parse_output e (trim out) of
                  Parse_error m \<Rightarrow> (Some (failure m), w')
                | Parsed_null \<Rightarrow> (None, w')
                | Parsed r \<Rightarrow> (Some r, w'))))"

record a11y_lists =
  m_fixed :: "fixed_item list"
  m_skipped :: "skipped_item list"
  m_manualReview :: "manual_item list"

definition a11y_manual_reason :: string where
  "a11y_manual_reason =
     ''Auto-fix not available '' @ [CHR 0xE2, CHR 0x80, CHR 0x94] @ '' manual review required.''"

definition a11y_process ::
  "env \<Rightarrow> bool \<Rightarrow> string \<Rightarrow> issue \<Rightarrow> a11y_lists \<times> world \<Rightarrow> a11y_lists \<times> world" where
  "a11y_process e dryRun root i s =
     (let (acc, w) = s in
      if \<not> autoFixPossible i then
        (acc\<lparr>m_manualReview := m_manualReview acc @ [manual_entry i a11y_manual_reason]\<rparr>, w)
      else if dryRun then
        (acc\<lparr>m_fixed := m_fixed acc @ [dry_run_entry i]\<rparr>, w)
      else
        (case a11y_applyCategoryFix e root i w of
           (None, w') \<Rightarrow>
             (acc\<lparr>m_skipped := m_skipped acc @
                [skipped_entry i (Some (''Fix failed: '' @ typeError e))]\<rparr>, w')
         | (Some r, w') \<Rightarrow>
             if success r then
               (acc\<lparr>m_fixed := m_fixed acc @ [fixed_entry i (action r) False]\<rparr>, w')
             else
               (acc\<lparr>m_skipped := m_skipped acc @ [skipped_entry i (reason r)]\<rparr>, w')))"

fun a11y_loop ::
  "env \<Rightarrow> bool \<Rightarrow> string \<Rightarrow> issue list \<Rightarrow> a11y_lists \<times> world \<Rightarrow> a11y_lists \<times> world" where
  "a11y_loop e dryRun root [] s = s"
| "a11y_loop e dryRun root (i # is) s = a11y_loop e dryRun root is (a11y_process e dryRun root i s)"

definition a11y_targetIssues :: "string \<Rightarrow> issue list \<Rightarrow> issue list" where
  "a11y_targetIssues flt allIssues =
     (if toLowerCase flt = ''all'' then allIssues
      else if is_id_filter ''A11Y-'' flt then
        filter (\<lambda>i. toUpperCase (issue_id i) = toUpperCase flt) allIssues
      else filter (\<lambda>i. category i = toLowerCase flt) allIssues)"

definition a11y_applyFixes :: "env \<Rightarrow> string \<Rightarrow> string \<Rightarrow> bool \<Rightarrow> world \<Rightarrow> a11y_output run \<times> world" where
  "a11y_applyFixes e root flt dryRun w =
     (case files w (path_join root ''a11y-report.json'') of
        None \<Rightarrow> (Exit_failure ''a11y-report.json not found. Run a11y-audit first.'', w)
      | Some doc \<Rightarrow>
          (case parse_report e doc of
             Inl m \<Rightarrow> (Exit_failure m, w)
           | Inr allIssues \<Rightarrow>
               (let targetIssues = a11y_targetIssues flt allIssues in
                if targetIssues = [] then
                  (Printed \<lparr>a11y_dryRun = dryRun,
                     a11y_message = Some (''No issues found matching filter: '' @ flt),
                     a11y_totalTargeted = None,
                     a11y_fixed = [], a11y_skipped = [], manualReview = []\<rparr>, w)
                else
                  (let (acc, w1) = a11y_loop e dryRun root targetIssues
                         (\<lparr>m_fixed = [], m_skipped = [], m_manualReview = []\<rparr>, w)
                   in case (if \<not> dryRun
                            then a11y_generateFixReport e root flt (m_fixed acc) (m_skipped acc)
                                   (m_manualReview acc) w1
                            else Inr w1) of
                        Inl m \<Rightarrow> (Exit_failure m, w1)
                      | Inr w2 \<Rightarrow>
                          (Printed \<lparr>a11y_dryRun = dryRun, a11y_message = None,
                             a11y_totalTargeted = Some (length targetIssues),
                             a11y_fixed = m_fixed acc, a11y_skipped = m_skipped acc,
                             manualReview = m_manualReview acc\<rparr>, w2)))))"



definition seo_reached :: "env \<Rightarrow> string \<Rightarrow> issue list \<Rightarrow> world \<Rightarrow> nat \<Rightarrow> seo_lists \<times> world" where
  "seo_reached e root ts w n =
     seo_loop e False root (take n ts) (\<lparr>l_fixed = [], l_skipped = [], l_recommendations = []\<rparr>, w)"

definition a11y_reached :: "env \<Rightarrow> string \<Rightarrow> issue list \<Rightarrow> world \<Rightarrow> nat \<Rightarrow> a11y_lists \<times> world" where
  "a11y_reached e root ts w n =
     a11y_loop e False root (take n ts) (\<lparr>m_fixed = [], m_skipped = [], m_manualReview = []\<rparr>, w)"



section \<open>Text operations of the scanners and handlers\<close>

text \<open>\<open>content.split('\n')\<close>: the empty string has one line, the empty one.\<close>

fun split_lines :: "string \<Rightarrow> string list" where
  "split_lines [] = [[]]"
| "split_lines (c # cs) =
     (if c = CHR 0x0A then [] # split_lines cs
      else (case split_lines cs of [] \<Rightarrow> [[c]] | l # ls \<Rightarrow> (c # l) # ls))"

text \<open>\<open>String(n)\<close> for an integer.\<close>

definition show_int :: "int \<Rightarrow> string" where
  "show_int n = (if n < 0 then ''-'' @ show_nat (nat (- n)) else show_nat (nat n))"

text \<open>
  \<open>s.substring(a, b)\<close>: both indices are clamped to the string and swapped when the first
  is the larger. \<open>s.substring(a)\<close> is \<open>substring s a (int (length s))\<close>.
\<close>

definition substring :: "string \<Rightarrow> int \<Rightarrow> int \<Rightarrow> string" where
  "substring s a b =
     (let n = int (length s);
          a' = max 0 (min a n);
          b' = max 0 (min b n)
      in take (nat (max a' b' - min a' b')) (drop (nat (min a' b')) s))"

subsection \<open>Regular expressions\<close>

text \<open>
  A regular expression is modelled by the function that matches it at the start of a
  string, given the character before (for \<open>\b\<close>), and \<open>search\<close> tries the positions from
  left to right as \<open>exec\<close>, \<open>match\<close> and \<open>test\<close> do. The pieces of a pattern consume a prefix
  and return the rest. In every pattern of the scripts modelled here a starred or plussed
  class is followed by a character outside the class, so its greedy match is the only
  one that can succeed and no backtracking is modelled.
\<close>

definition starts_with :: "string \<Rightarrow> string \<Rightarrow> bool" where
  "starts_with p s \<longleftrightarrow> take (length p) s = p"

definition starts_with_ci :: "string \<Rightarrow> string \<Rightarrow> bool" where
  "starts_with_ci p s \<longleftrightarrow> map lower_char (take (length p) s) = map lower_char p"

definition lit :: "string \<Rightarrow> string \<Rightarrow> string option" where
  "lit p s = (if starts_with p s then Some (drop (length p) s) else None)"

definition lit_ci :: "string \<Rightarrow> string \<Rightarrow> string option" where
  "lit_ci p s = (if starts_with_ci p s then Some (drop (length p) s) else None)"

definition one_of :: "(char \<Rightarrow> bool) \<Rightarrow> string \<Rightarrow> string option" where
  "one_of P s = (case s of [] \<Rightarrow> None | c # cs \<Rightarrow> if P c then Some cs else None)"

definition star :: "(char \<Rightarrow> bool) \<Rightarrow> string \<Rightarrow> string option" where
  "star P s = Some (dropWhile P s)"

fun seqs :: "(string \<Rightarrow> string option) list \<Rightarrow> string \<Rightarrow> string option" where
  "seqs [] s = Some s"
| "seqs (m # ms) s = (case m s of None \<Rightarrow> None | Some r \<Rightarrow> seqs ms r)"

text \<open>\<open>\b\<close>: exactly one of the characters before and after is a word character.\<close>

definition at_boundary :: "char option \<Rightarrow> string \<Rightarrow> bool" where
  "at_boundary prev s \<longleftrightarrow>
     (case prev of None \<Rightarrow> False | Some c \<Rightarrow> is_word c) \<noteq>
     (case s of [] \<Rightarrow> False | c # cs \<Rightarrow> is_word c)"

fun search :: "(char option \<Rightarrow> string \<Rightarrow> 'a option) \<Rightarrow> char option \<Rightarrow> string \<Rightarrow> (nat \<times> 'a) option" where
  "search m prev [] = map_option (Pair 0) (m prev [])"
| "search m prev (c # cs) =
     (case m prev (c # cs) of
        Some r \<Rightarrow> Some (0, r)
      | None \<Rightarrow> map_option (\<lambda>(k, r). (Suc k, r)) (search m (Some c) cs))"

definition test :: "(char option \<Rightarrow> string \<Rightarrow> 'a option) \<Rightarrow> string \<Rightarrow> bool" where
  "test m s \<longleftrightarrow> search m None s \<noteq> None"

text \<open>
  The loop \<open>while ((match = re.exec(content)) !== null)\<close> over a global pattern: every
  match from left to right, each search resuming after the previous match. The matcher
  returns the length of the match and its capture; \<open>skip\<close> counts the characters of the
  previous match still to pass. No pattern in use matches the empty string.
\<close>

fun scan_all ::
  "(char option \<Rightarrow> string \<Rightarrow> (nat \<times> 'a) option) \<Rightarrow> nat \<Rightarrow> nat \<Rightarrow> char option \<Rightarrow> string \<Rightarrow> (nat \<times> 'a) list" where
  "scan_all m skip pos prev [] = []"
| "scan_all m skip pos prev (c # cs) =
     (if 0 < skip then scan_all m (skip - 1) (Suc pos) (Some c) cs
      else (case m prev (c # cs) of
              Some (len, r) \<Rightarrow> (pos, r) # scan_all m (len - 1) (Suc pos) (Some c) cs
            | None \<Rightarrow> scan_all m 0 (Suc pos) (Some c) cs))"

text \<open>\<open>s.indexOf(needle, from)\<close>, \<open>s.lastIndexOf(c, from)\<close> and \<open>s.includes(needle)\<close>.\<close>

definition indexOf :: "string \<Rightarrow> string \<Rightarrow> nat \<Rightarrow> int" where
  "indexOf s needle from =
     (case search (\<lambda>prev r. if starts_with needle r then Some () else None) None (drop from s) of
        None \<Rightarrow> - 1
      | Some (k, u) \<Rightarrow> int (from + k))"

definition lastIndexOf :: "string \<Rightarrow> char \<Rightarrow> nat \<Rightarrow> int" where
  "lastIndexOf s c from =
     (case search (\<lambda>prev r. if starts_with [c] r then Some () else None) None
             (rev (take (Suc from) s)) of
        None \<Rightarrow> - 1
      | Some (k, u) \<Rightarrow> int (length (take (Suc from) s)) - 1 - int k)"

definition includesStr :: "string \<Rightarrow> string \<Rightarrow> bool" where
  "includesStr s needle \<longleftrightarrow> indexOf s needle 0 \<noteq> - 1"

text \<open>\<open>s.replace(needle, by)\<close> for a pattern without special characters: the first occurrence.\<close>

definition replace_first :: "string \<Rightarrow> string \<Rightarrow> string \<Rightarrow> string" where
  "replace_first s needle by =
     (case search (\<lambda>prev r. if starts_with needle r then Some () else None) None s of
        None \<Rightarrow> s
      | Some (k, u) \<Rightarrow> take k s @ by @ drop (k + length needle) s)"

subsection \<open>The patterns\<close>

definition is_quote :: "char \<Rightarrow> bool" where
  "is_quote c \<longleftrightarrow> c = CHR 0x22 \<or> c = CHR 0x27"

text \<open>The tail \<open>\s*=\s*["']([^"']+)["']\<close> of the attribute patterns; the result is the capture.\<close>

definition attr_value :: "string \<Rightarrow> string option" where
  "attr_value s =
     (case seqs [star is_space, lit ''='', star is_space, one_of is_quote] s of
        None \<Rightarrow> None
      | Some r \<Rightarrow>
          if takeWhile (\<lambda>c. \<not> is_quote c) r \<noteq> [] \<and> dropWhile (\<lambda>c. \<not> is_quote c) r \<noteq> []
          then Some (takeWhile (\<lambda>c. \<not> is_quote c) r) else None)"

text \<open>\<open>/\battr\s*=/\<close>, for an attribute name that starts with a word character.\<close>

definition re_attr_eq :: "string \<Rightarrow> char option \<Rightarrow> string \<Rightarrow> string option" where
  "re_attr_eq name prev s =
     (if at_boundary prev s then seqs [lit name, star is_space, lit ''=''] s else None)"

text \<open>\<open>/\bsrc\s*=\s*["']([^"']+)["']/\<close>: capture 1.\<close>

definition re_src :: "char option \<Rightarrow> string \<Rightarrow> string option" where
  "re_src prev s =
     (if at_boundary prev s
      then (case lit ''src'' s of None \<Rightarrow> None | Some r \<Rightarrow> attr_value r)
      else None)"

text \<open>
  \<open>/\b(class|className)\s*=\s*["']([^"']+)["']/\<close>: capture 2. The first alternative is
  tried first; when the rest fails after it, the second is tried.
\<close>

definition re_class :: "char option \<Rightarrow> string \<Rightarrow> string option" where
  "re_class prev s =
     (if at_boundary prev s
      then (case lit ''class'' s of
              None \<Rightarrow> None
            | Some r \<Rightarrow>
                (case attr_value r of
                   Some v \<Rightarrow> Some v
                 | None \<Rightarrow> (case lit ''Name'' r of None \<Rightarrow> None | Some r' \<Rightarrow> attr_value r')))
      else None)"

text \<open>\<open>/\battr\s*=\s*["'][^"']+["']/\<close>.\<close>

definition re_attr_value :: "string \<Rightarrow> char option \<Rightarrow> string \<Rightarrow> string option" where
  "re_attr_value name prev s =
     (if at_boundary prev s
      then (case lit name s of None \<Rightarrow> None | Some r \<Rightarrow> attr_value r)
      else None)"

text \<open>\<open>DECORATIVE_HINTS = /icon|decorat|separator|divider|spacer|background|bg-|ornament/i\<close>.\<close>

definition DECORATIVE_HINTS :: "char option \<Rightarrow> string \<Rightarrow> unit option" where
  "DECORATIVE_HINTS prev s =
     (if list_ex (\<lambda>h. starts_with_ci h s)
           [''icon'', ''decorat'', ''separator'', ''divider'', ''spacer'', ''background'', ''bg-'',
            ''ornament'']
      then Some () else None)"

text \<open>
  \<open>/<img\s/i\<close> and \<open>/<Image\s/\<close>, the opening of a tag: the result is the rest of the string
  after the match, so the match ends where the rest begins.
\<close>

definition re_open_ci :: "string \<Rightarrow> char option \<Rightarrow> string \<Rightarrow> string option" where
  "re_open_ci name prev s = seqs [lit_ci (CHR ''<'' # name), one_of is_space] s"

definition re_open :: "string \<Rightarrow> char option \<Rightarrow> string \<Rightarrow> string option" where
  "re_open name prev s = seqs [lit (CHR ''<'' # name), one_of is_space] s"

text \<open>
  \<open>/<img\s([^>]*?)\/?\s*>/gi\<close> and \<open>/<Image\s([^>]*?)\/?\s*>/gi\<close>. No piece after the name can
  match \<open>>\<close>, so the match ends at the first \<open>>\<close> after the name; the lazy capture is the
  shortest prefix of the text in between whose remainder is an optional slash and white
  space: the text without its trailing white space and without one slash before that.
\<close>

definition tag_attrs :: "string \<Rightarrow> string" where
  "tag_attrs between =
     (let r = rev (dropWhile is_space (rev between))
      in if r \<noteq> [] \<and> last r = CHR ''/'' then butlast r else r)"

definition re_tag :: "string \<Rightarrow> char option \<Rightarrow> string \<Rightarrow> (nat \<times> string) option" where
  "re_tag name prev s =
     (case re_open_ci name prev s of
        None \<Rightarrow> None
      | Some r \<Rightarrow>
          if dropWhile (\<lambda>c. c \<noteq> CHR ''>'') r = [] then None
          else Some (length name + 2 + length (takeWhile (\<lambda>c. c \<noteq> CHR ''>'') r) + 1,
                     tag_attrs (takeWhile (\<lambda>c. c \<noteq> CHR ''>'') r)))"

text \<open>\<open>/role\s*=\s*["']img["']/gi\<close>; the length of the match is all the loop uses.\<close>

definition re_role_img :: "char option \<Rightarrow> string \<Rightarrow> (nat \<times> unit) option" where
  "re_role_img prev s =
     (case seqs [lit_ci ''role'', star is_space, lit ''='', star is_space, one_of is_quote,
                 lit_ci ''img'', one_of is_quote] s of
        None \<Rightarrow> None
      | Some r \<Rightarrow> Some (length s - length r, ()))"

text \<open>\<open>/<(div|span)\s/\<close>: the name matched and the rest of the string.\<close>

definition re_div_span :: "char option \<Rightarrow> string \<Rightarrow> (string \<times> string) option" where
  "re_div_span prev s =
     (case re_open ''div'' prev s of
        Some r \<Rightarrow> Some (''div'', r)
      | None \<Rightarrow> (case re_open ''span'' prev s of Some r \<Rightarrow> Some (''span'', r) | None \<Rightarrow> None))"

text \<open>\<open>/<(a|button|input|select|textarea)\s/i\<close>.\<close>

definition re_interactive :: "char option \<Rightarrow> string \<Rightarrow> unit option" where
  "re_interactive prev s =
     (if list_ex (\<lambda>n. re_open_ci n prev s \<noteq> None) [''a'', ''button'', ''input'', ''select'', ''textarea'']
      then Some () else None)"

section \<open>The image scanner\<close>

text \<open>
  \<open>scan-images.js\<close>. The walk over the project directory is not modelled: \<open>scanImages\<close>
  takes the files that \<open>getSourceFiles\<close> returns, each as its path relative to the project
  root and what \<open>readFileSafe\<close> gives for it. \<open>scan_file\<close> is the body of the loop over the
  files.
\<close>

definition dash :: string where
  "dash = [CHR 0xE2, CHR 0x80, CHR 0x94]"

definition decorative_img_finding :: "string \<Rightarrow> nat \<Rightarrow> finding" where
  "decorative_img_finding relPath lineNum =
     \<lparr>severity = ''medium'', category = ''images'', issue_file = relPath, issue_line = int lineNum,
      problem = ''Likely decorative <img> missing alt=\"\" '' @ dash @
        '' should have empty alt to be ignored by screen readers'',
      impact = ''Without alt=\"\", screen readers may announce the filename, which is confusing for decorative images.'',
      recommendedFix = ''Add alt=\"\" to mark this image as decorative.'',
      autoFixPossible = True, wcagCriteria = Some ''1.1.1'', wcagLevel = Some ''A''\<rparr>"

definition missing_alt_finding :: "string \<Rightarrow> nat \<Rightarrow> finding" where
  "missing_alt_finding relPath lineNum =
     \<lparr>severity = ''critical'', category = ''images'', issue_file = relPath, issue_line = int lineNum,
      problem = ''<img> tag missing alt attribute'',
      impact = ''Screen readers cannot describe this image. Depending on browser, they may read the filename or URL, which is meaningless.'',
      recommendedFix = ''Add a descriptive alt attribute. If decorative, add alt=\"\".'',
      autoFixPossible = True, wcagCriteria = Some ''1.1.1'', wcagLevel = Some ''A''\<rparr>"

definition next_image_finding :: "string \<Rightarrow> nat \<Rightarrow> finding" where
  "next_image_finding relPath lineNum =
     \<lparr>severity = ''critical'', category = ''images'', issue_file = relPath, issue_line = int lineNum,
      problem = ''Next.js Image component missing alt attribute'',
      impact = ''Screen readers cannot describe this image.'',
      recommendedFix = ''Add alt=\"descriptive text\" or alt=\"\" if decorative.'',
      autoFixPossible = True, wcagCriteria = Some ''1.1.1'', wcagLevel = Some ''A''\<rparr>"

definition role_img_finding :: "string \<Rightarrow> nat \<Rightarrow> finding" where
  "role_img_finding relPath lineNum =
     \<lparr>severity = ''high'', category = ''images'', issue_file = relPath, issue_line = int lineNum,
      problem = ''Element with role=\"img\" has no accessible name'',
      impact = ''Screen readers identify this as an image but have no description to announce.'',
      recommendedFix = ''Add aria-label=\"description\" or aria-labelledby pointing to a visible label.'',
      autoFixPossible = False, wcagCriteria = Some ''1.1.1'', wcagLevel = Some ''A''\<rparr>"

text \<open>\<open>content.substring(0, match.index).split('\n').length\<close>.\<close>

definition lineNum_at :: "string \<Rightarrow> nat \<Rightarrow> nat" where
  "lineNum_at content idx = length (split_lines (take idx content))"

definition isLikelyDecorative :: "string \<Rightarrow> bool" where
  "isLikelyDecorative attrs \<longleftrightarrow>
     (case search re_src None attrs of None \<Rightarrow> False | Some (k, v) \<Rightarrow> test DECORATIVE_HINTS v) \<or>
     (case search re_class None attrs of None \<Rightarrow> False | Some (k, v) \<Rightarrow> test DECORATIVE_HINTS v)"

definition img_findings :: "string \<Rightarrow> string \<Rightarrow> finding list" where
  "img_findings relPath content =
     concat (map (\<lambda>(idx, attrs).
        if test (re_attr_eq ''alt'') attrs then []
        else if isLikelyDecorative attrs then [decorative_img_finding relPath (lineNum_at content idx)]
        else [missing_alt_finding relPath (lineNum_at content idx)])
       (scan_all (re_tag ''img'') 0 0 None content))"

definition next_image_findings :: "string \<Rightarrow> string \<Rightarrow> finding list" where
  "next_image_findings relPath content =
     concat (map (\<lambda>(idx, attrs).
        if test (re_attr_eq ''alt'') attrs then []
        else [next_image_finding relPath (lineNum_at content idx)])
       (scan_all (re_tag ''Image'') 0 0 None content))"

definition role_img_findings :: "string \<Rightarrow> string \<Rightarrow> finding list" where
  "role_img_findings relPath content =
     concat (map (\<lambda>(idx, u).
        let tagStart = lastIndexOf content CHR ''<'' idx;
            tagEnd = indexOf content ''>'' idx;
            tag = substring content tagStart (tagEnd + 1)
        in if \<not> test (re_attr_value ''aria-label'') tag \<and>
              \<not> test (re_attr_value ''aria-labelledby'') tag \<and>
              \<not> test (re_attr_value ''alt'') tag
           then [role_img_finding relPath (lineNum_at content idx)] else [])
       (scan_all re_role_img 0 0 None content))"

definition scan_file :: "string \<Rightarrow> string \<Rightarrow> string \<Rightarrow> finding list" where
  "scan_file fw relPath content =
     img_findings relPath content @
     (if fw = ''nextjs'' then next_image_findings relPath content else []) @
     role_img_findings relPath content"

definition scanImages :: "string \<Rightarrow> (string \<times> string option) list \<Rightarrow> finding list" where
  "scanImages fw sourceFiles =
     concat (map (\<lambda>(relPath, read).
        case read of
          None \<Rightarrow> []
        | Some content \<Rightarrow> if content = [] then [] else scan_file fw relPath content)
       sourceFiles)"

section \<open>The fix handlers\<close>

text \<open>
  A handler script reads the finding and the project root from its command line, runs
  \<open>applyFix\<close> and prints the result. The call is inside a \<open>try\<close>: an error thrown in
  \<open>applyFix\<close> is caught at the end of the script and printed as a failure whose reason
  is the message of the error. In the model the operation that can throw is a write, and a
  fix function returns that failure where the write throws, with the file system as the
  writes before left it.

  Every fix function of the two accessibility handlers ends in the same three statements:
  the content read at the start is written to the path with \<open>.bak\<close> appended, the new
  content is written to the file, and the success is returned.
\<close>

definition write_with_backup ::
  "string \<Rightarrow> string \<Rightarrow> string \<Rightarrow> string \<Rightarrow> world \<Rightarrow> fix_result \<times> world" where
  "write_with_backup filePath content new act w =
     (case writeFileSync (filePath @ ''.bak'') content w of
        Inl m \<Rightarrow> (failure m, w)
      | Inr w1 \<Rightarrow>
          (case writeFileSync filePath new w1 of
             Inl m \<Rightarrow> (failure m, w1)
           | Inr w2 \<Rightarrow> (succeeded act, w2)))"

definition lineIdx_of :: "'a issue_scheme \<Rightarrow> int" where
  "lineIdx_of i = (if issue_line i \<noteq> 0 then issue_line i - 1 else - 1)"

subsection \<open>\<open>apply-images-fix.js\<close>\<close>

definition looksDecorative :: "string \<Rightarrow> bool" where
  "looksDecorative tag \<longleftrightarrow>
     (case search re_src None tag of None \<Rightarrow> False | Some (k, v) \<Rightarrow> test DECORATIVE_HINTS v) \<or>
     (case search re_class None tag of None \<Rightarrow> False | Some (k, v) \<Rightarrow> test DECORATIVE_HINTS v)"

definition fixImgAlt ::
  "issue \<Rightarrow> string \<Rightarrow> string \<Rightarrow> string list \<Rightarrow> nat \<Rightarrow> bool \<Rightarrow> world \<Rightarrow> fix_result \<times> world" where
  "fixImgAlt i filePath content lines lineIdx isDecorative w =
     (let line = lines ! lineIdx in
      case search (re_open_ci ''img'') None line of
        None \<Rightarrow> (failure ''Could not find <img> on target line.'', w)
      | Some (tagStart, rest) \<Rightarrow>
          (let tagEnd = indexOf line ''>'' tagStart;
               tag = substring line (int tagStart) (tagEnd + 1)
           in if test (re_attr_eq ''alt'') tag
              then (failure ''Image already has an alt attribute.'', w)
              else
                (let altValue = (if isDecorative then ''''
                                 else if looksDecorative tag then '''' else ''TODO: describe image'');
                     insertPos = length line - length rest;
                     lines' = lines[lineIdx := take insertPos line @ ''alt=\"'' @ altValue @ ''\" '' @
                                               drop insertPos line];
                     desc = (if altValue = ''''
                             then ''Added alt=\"\" (decorative) to <img> in '' @ issue_file i @
                                  '' line '' @ show_int (issue_line i) @ ''.''
                             else ''Added alt=\"TODO: describe image\" to <img> in '' @ issue_file i @
                                  '' line '' @ show_int (issue_line i) @ ''. Please update.'')
                 in write_with_backup filePath content (join_lines lines') desc w)))"

definition fixNextImageAlt ::
  "issue \<Rightarrow> string \<Rightarrow> string \<Rightarrow> string list \<Rightarrow> nat \<Rightarrow> world \<Rightarrow> fix_result \<times> world" where
  "fixNextImageAlt i filePath content lines lineIdx w =
     (let line = lines ! lineIdx in
      case search (re_open ''Image'') None line of
        None \<Rightarrow> (failure ''Could not find <Image> on target line.'', w)
      | Some (tagStart, rest) \<Rightarrow>
          (let tagEnd = indexOf line ''>'' tagStart;
               tag = (if - 1 < tagEnd then substring line (int tagStart) (tagEnd + 1) else '''')
           in if test (re_attr_eq ''alt'') tag \<or> test (re_attr_eq ''alt'') line
              then (failure ''Image component already has an alt attribute.'', w)
              else
                (let insertPos = length line - length rest;
                     lines' = lines[lineIdx := take insertPos line @ ''alt=\"TODO: describe image\" '' @
                                               drop insertPos line]
                 in write_with_backup filePath content (join_lines lines')
                      (''Added alt=\"TODO: describe image\" to <Image> in '' @ issue_file i @
                       '' line '' @ show_int (issue_line i) @ ''. Please update.'') w)))"

definition images_applyFix :: "issue \<Rightarrow> string \<Rightarrow> world \<Rightarrow> fix_result \<times> world" where
  "images_applyFix i root w =
     (let filePath = path_join root (issue_file i) in
      case files w filePath of
        None \<Rightarrow> (failure (''File not found: '' @ issue_file i), w)
      | Some content \<Rightarrow>
          (let lines = split_lines content; lineIdx = lineIdx_of i in
           if lineIdx < 0 \<or> int (length lines) \<le> lineIdx
           then (failure ''Could not locate the issue line.'', w)
           else if includesStr (problem i) ''decorative'' \<and> includesStr (problem i) ''missing alt''
           then fixImgAlt i filePath content lines (nat lineIdx) True w
           else if includesStr (problem i) ''<img>'' \<and> includesStr (problem i) ''missing alt''
           then fixImgAlt i filePath content lines (nat lineIdx) False w
           else if includesStr (problem i) ''Image component missing alt''
           then fixNextImageAlt i filePath content lines (nat lineIdx) w
           else (failure ''This image issue requires manual review.'', w)))"

subsection \<open>\<open>apply-semantics-fix.js\<close>\<close>

text \<open>
  The loop of \<open>fixDivToButton\<close> over the lines after the target line: the first line with
  the closing tag has its first occurrence replaced; \<open>None\<close> when no line has one.
\<close>

fun fix_closing_below :: "string \<Rightarrow> string list \<Rightarrow> string list option" where
  "fix_closing_below closeTag [] = None"
| "fix_closing_below closeTag (l # ls) =
     (if includesStr l closeTag then Some (replace_first l closeTag ''</button>'' # ls)
      else map_option ((#) l) (fix_closing_below closeTag ls))"

text \<open>\<open>line.replace(new RegExp(`<${origTag}(\\s)`), '<button type="button"$1')\<close>.\<close>

definition replace_opening :: "string \<Rightarrow> string \<Rightarrow> string" where
  "replace_opening origTag line =
     (case search (re_open origTag) None line of
        None \<Rightarrow> line
      | Some (k, rest) \<Rightarrow>
          take k line @ ''<button type=\"button\"'' @ drop (k + length origTag + 1) line)"

definition fixDivToButton ::
  "issue \<Rightarrow> string \<Rightarrow> string \<Rightarrow> string list \<Rightarrow> int \<Rightarrow> world \<Rightarrow> fix_result \<times> world" where
  "fixDivToButton i filePath content lines lineIdx w =
     (if lineIdx < 0 \<or> int (length lines) \<le> lineIdx
      then (failure ''Could not locate the issue line.'', w)
      else
        (let line = lines ! nat lineIdx in
         case search re_div_span None line of
           None \<Rightarrow> (failure ''Could not find div/span on target line.'', w)
         | Some (k, origTag, rest) \<Rightarrow>
             (let matched = take (length (drop k line) - length rest) (drop k line);
                  fullTag = substring line (indexOf line matched 0) (int (length line))
              in if test re_interactive fullTag
                 then (failure (''Nested interactive elements detected '' @ dash @
                                '' cannot safely convert.''), w)
                 else if test (re_attr_eq ''href'') fullTag
                 then (failure (''Element has href '' @ dash @ '' should be a link, not a button.''), w)
                 else
                   (let newLine = replace_opening origTag line;
                        closeTag = ''</'' @ origTag @ ''>'';
                        fixedLines =
                          (if includesStr newLine closeTag
                           then Some (lines[nat lineIdx := replace_first newLine closeTag ''</button>''])
                           else map_option (\<lambda>below. take (nat lineIdx) lines @ newLine # below)
                                  (fix_closing_below closeTag (drop (Suc (nat lineIdx)) lines)))
                    in case fixedLines of
                         None \<Rightarrow> (failure (''Could not find closing </'' @ origTag @ ''> tag.''), w)
                       | Some lines' \<Rightarrow>
                           write_with_backup filePath content (join_lines lines')
                             (''Replaced <'' @ origTag @
                              '' onClick> with <button type=\"button\"> in '' @ issue_file i @
                              '' line '' @ show_int (issue_line i) @ ''.'') w))))"

definition addTabindex ::
  "issue \<Rightarrow> string \<Rightarrow> string \<Rightarrow> string list \<Rightarrow> int \<Rightarrow> world \<Rightarrow> fix_result \<times> world" where
  "addTabindex i filePath content lines lineIdx w =
     (if lineIdx < 0 \<or> int (length lines) \<le> lineIdx
      then (failure ''Could not locate the issue line.'', w)
      else
        (let line = lines ! nat lineIdx in
         if test (\<lambda>prev s. seqs [lit ''tabindex'', star is_space, lit ''=''] s) line
         then (failure ''Element already has tabindex.'', w)
         else
           (case search re_div_span None line of
              None \<Rightarrow> (failure ''Could not find div/span on target line.'', w)
            | Some (k, origTag, rest) \<Rightarrow>
                (let matched = take (length (drop k line) - length rest) (drop k line);
                     insertPos = nat (indexOf line matched 0) + length matched;
                     lines' = lines[nat lineIdx := take insertPos line @ ''tabindex=\"0\" '' @
                                                   drop insertPos line]
                 in write_with_backup filePath content (join_lines lines')
                      (''Added tabindex=\"0\" in '' @ issue_file i @ '' line '' @
                       show_int (issue_line i) @ ''.'') w))))"

definition semantics_applyFix :: "issue \<Rightarrow> string \<Rightarrow> world \<Rightarrow> fix_result \<times> world" where
  "semantics_applyFix i root w =
     (let filePath = path_join root (issue_file i) in
      case files w filePath of
        None \<Rightarrow> (failure (''File not found: '' @ issue_file i), w)
      | Some content \<Rightarrow>
          (let lines = split_lines content; lineIdx = lineIdx_of i in
           if includesStr (problem i) ''onClick handler used as interactive control''
           then fixDivToButton i filePath content lines lineIdx w
           else if includesStr (problem i) ''missing tabindex''
           then addTabindex i filePath content lines lineIdx w
           else (failure ''This semantics issue requires manual review.'', w)))"

text \<open>
  What \<open>fixDivToButton\<close> writes, told from the lines it read: the opening tag at column
  \<open>pos\<close> of line \<open>k\<close> becomes a button, and the first closing tag of the line \<open>j\<close> lines
  further down becomes the closing tag of a button. \<open>first_line_with\<close> is the number of the
  first line with an occurrence of a text.
\<close>

fun first_line_with :: "string \<Rightarrow> string list \<Rightarrow> nat option" where
  "first_line_with n [] = None"
| "first_line_with n (l # ls) =
     (if includesStr l n then Some 0 else map_option Suc (first_line_with n ls))"

definition retag_lines :: "string \<Rightarrow> nat \<Rightarrow> nat \<Rightarrow> nat \<Rightarrow> string list \<Rightarrow> string list" where
  "retag_lines tag pos k j lines =
     (let opened = lines[k := take pos (lines ! k) @ ''<button type=\"button\"'' @
                               drop (pos + length tag + 1) (lines ! k)]
      in opened[k + j := replace_first (opened ! (k + j)) (''</'' @ tag @ ''>'') ''</button>''])"

subsection \<open>\<open>apply-gtm-fix.js\<close>: installing the tag manager in an HTML file\<close>

text \<open>
  The handler of the search-engine plugin for the finding that the tag manager is not
  installed. \<open>installGtm\<close> first asks \<open>detectGtmEnvVar\<close> for the identifier to insert and,
  for a finding in an \<open>.html\<close> or \<open>.htm\<close> file whose path has neither \<open>layout.\<close> nor
  \<open>_document.\<close>, calls \<open>installHtml\<close> with the path joined to the root and that
  identifier. These two functions and \<open>ensureEnvExample\<close> are modelled.

  \<open>detectGtmEnvVar\<close> loops over \<open>ENV_VAR_NAMES\<close> for every environment file that exists and
  is not empty. The script defines no such name, so that loop throws a \<open>ReferenceError\<close>,
  which the script catches at top level and prints as a failure: \<open>Inl\<close> is the message.
  Otherwise the dependencies of \<open>package.json\<close> decide. Parsing is a parameter: it gives
  the predicate that holds of the names with a truthy entry among the dependencies, or
  \<open>None\<close> when reading them throws.
\<close>

definition detectGtmEnvVar ::
  "(string \<Rightarrow> (string \<Rightarrow> bool) option) \<Rightarrow> string \<Rightarrow> world \<Rightarrow> string + string" where
  "detectGtmEnvVar parse_deps root w =
     (if list_ex (\<lambda>envFile. case files w (path_join root envFile) of
                               None \<Rightarrow> False
                             | Some c \<Rightarrow> c \<noteq> [])
           [''.env'', ''.env.local'', ''.env.production'', ''.env.example'']
      then Inl ''ENV_VAR_NAMES is not defined''
      else Inr (case files w (path_join root ''package.json'') of
                  None \<Rightarrow> ''GTM-XXXXXXX''
                | Some doc \<Rightarrow>
                    (case parse_deps doc of
                       None \<Rightarrow> ''GTM-XXXXXXX''
                     | Some deps \<Rightarrow>
                         if deps ''next'' then ''process.env.NEXT_PUBLIC_GTM_ID''
                         else if deps ''vite'' \<or> deps ''@vitejs/plugin-react''
                         then ''import.meta.env.VITE_GTM_ID''
                         else if deps ''react-scripts'' then ''process.env.REACT_APP_GTM_ID''
                         else if deps ''gatsby'' then ''process.env.GATSBY_GTM_ID''
                         else ''GTM-XXXXXXX'')))"

text \<open>The entry \<open>ensureEnvExample\<close> appends, and the two snippets \<open>installHtml\<close> inserts.\<close>

definition env_entry :: "string \<Rightarrow> string" where
  "env_entry varName =
       ''\<newline>'' @
       ''# Google Tag Manager Container ID\<newline>'' @
       ''# TODO: Replace with your actual GTM container ID\<newline>'' @ varName @
       ''=GTM-XXXXXXX\<newline>''"

definition gtmScript :: "string \<Rightarrow> string" where
  "gtmScript gtmIdValue =
       ''\<newline>'' @
       ''  <!-- Google Tag Manager -->\<newline>'' @
       ''  <script>(function(w,d,s,l,i){w[l]=w[l]||[];w[l].push({'gtm.start':\<newline>'' @
       ''  new Date().getTime(),event:'gtm.js'});var f=d.getElementsByTagName(s)[0],\<newline>'' @
       ''  j=d.createElement(s),dl=l!='dataLayer'?'&l='+l:'' @
       [CHR 0x27] @
       [CHR 0x27] @
       '';j.async=true;j.src=\<newline>'' @
       ''  'https://www.googletagmanager.com/gtm.js?id='+i+dl;f.parentNode.insertBefore(j,f);\<newline>'' @
       ''  })(window,document,'script','dataLayer','' @
       [CHR 0x27] @ gtmIdValue @
       [CHR 0x27] @
       '');</script>\<newline>'' @
       ''  <!-- End Google Tag Manager -->''"

definition gtmNoscript :: "string \<Rightarrow> string" where
  "gtmNoscript gtmIdValue =
       ''\<newline>'' @
       ''  <!-- Google Tag Manager (noscript) -->\<newline>'' @
       ''  <noscript><iframe src=\"https://www.googletagmanager.com/ns.html?id='' @ gtmIdValue @
       ''\"\<newline>'' @
       ''  height=\"0\" width=\"0\" style=\"display:none;visibility:hidden\"></iframe></noscript>\<newline>'' @
       ''  <!-- End Google Tag Manager (noscript) -->''"

text \<open>
  \<open>ensureEnvExample\<close>: when the identifier is a variable of the environment, the file
  \<open>.env.example\<close> of the project gets an entry for it, unless the file exists and already
  has the name. The file is written as it is, with no copy of what it held. As in the other
  handler scripts, an error thrown by a write is printed as a failure by the \<open>catch\<close> at the
  end of the script.
\<close>

definition ensureEnvExample :: "string \<Rightarrow> string \<Rightarrow> world \<Rightarrow> string + world" where
  "ensureEnvExample root gtmId w =
     (if \<not> starts_with ''process.env.'' gtmId \<and> \<not> starts_with ''import.meta.env.'' gtmId
      then Inr w
      else
        (let varName = replace_first (replace_first gtmId ''process.env.'' []) ''import.meta.env.'' [];
             envExamplePath = path_join root ''.env.example'';
             content = (case files w envExamplePath of None \<Rightarrow> [] | Some c \<Rightarrow> c)
         in if existsSync envExamplePath w \<and> includesStr content varName then Inr w
            else writeFileSync envExamplePath (content @ env_entry varName) w))"

text \<open>
  \<open>/googletagmanager\.com\/gtm\.js/\<close>, and \<open>/<head[^>]*>/i\<close> and \<open>/<body[^>]*>/i\<close>: the
  name in any case, then everything up to the first \<open>>\<close>. The result is the text after
  the match, so the match ends at \<open>length content - length rest\<close>.
\<close>

definition re_gtm_js :: "char option \<Rightarrow> string \<Rightarrow> string option" where
  "re_gtm_js prev s = lit ''googletagmanager.com/gtm.js'' s"

definition re_element_ci :: "string \<Rightarrow> char option \<Rightarrow> string \<Rightarrow> string option" where
  "re_element_ci name prev s =
     seqs [lit_ci (CHR ''<'' # name), star (\<lambda>c. c \<noteq> CHR ''>''), lit ''>''] s"

definition installHtml :: "issue \<Rightarrow> string \<Rightarrow> string \<Rightarrow> string \<Rightarrow> world \<Rightarrow> fix_result \<times> world" where
  "installHtml i root filePath gtmId w =
     (case files w filePath of
        None \<Rightarrow> (failure (''File not found: '' @ issue_file i), w)
      | Some content \<Rightarrow>
          if test re_gtm_js content then (failure ''GTM is already installed in this file.'', w)
          else
            (let gtmIdValue = (if starts_with ''process.env.'' gtmId then ''GTM-XXXXXXX'' else gtmId) in
             case search (re_element_ci ''head'') None content of
               None \<Rightarrow> (failure ''No <head> tag found in HTML file.'', w)
             | Some (k, rest) \<Rightarrow>
                 (let insertPos = length content - length rest;
                      content1 = take insertPos content @ gtmScript gtmIdValue @ drop insertPos content
                  in case search (re_element_ci ''body'') None content1 of
                       None \<Rightarrow> (failure ''No <body> tag found in HTML file.'', w)
                     | Some (k2, rest2) \<Rightarrow>
                         (let insertPos2 = length content1 - length rest2;
                              content2 = take insertPos2 content1 @ gtmNoscript gtmIdValue @
                                         drop insertPos2 content1
                          in case writeFileSync (filePath @ ''.bak'') content w of
                               Inl m \<Rightarrow> (failure m, w)
                             | Inr w1 \<Rightarrow>
                                 (case writeFileSync filePath content2 w1 of
                                    Inl m \<Rightarrow> (failure m, w1)
                                  | Inr w2 \<Rightarrow>
                                      (case ensureEnvExample root gtmId w2 of
                                         Inl m \<Rightarrow> (failure m, w2)
                                       | Inr w3 \<Rightarrow>
                                           (succeeded (''Installed GTM in '' @ issue_file i @
                                              ''. Please replace GTM-XXXXXXX with your actual GTM container ID.''),
                                            w3)))))))"

section \<open>Auxiliary notions of the statements\<close>

text \<open>
  The files of the icon scenario: one image tag on one line, with a source in double
  quotes as its only attribute. The source is plain when it has no angle bracket, equals
  sign, quote or line break.
\<close>

definition plain :: "string \<Rightarrow> bool" where
  "plain v \<longleftrightarrow> list_all (\<lambda>c. c \<notin> set ''<>=\"\<newline>'' \<and> c \<noteq> CHR 0x27) v"

definition icon_tag :: "string \<Rightarrow> string" where
  "icon_tag v = ''<img src=\"'' @ v @ ''\">''"

text \<open>
  The reading of the specification that the handler does not implement: the closing tag that
  matches an opening tag is the one at which the elements of that name opened after it
  have all been closed. \<open>spec_matching_close\<close> finds its position in the text after the
  opening tag, and \<open>spec_retag_matching\<close> is the line with the first opening tag and its
  matching closing tag rewritten.
\<close>

definition opens_tag :: "string \<Rightarrow> string \<Rightarrow> bool" where
  "opens_tag tag s \<longleftrightarrow>
     (case lit (CHR ''<'' # tag) s of
        None \<Rightarrow> False
      | Some r \<Rightarrow> (case r of [] \<Rightarrow> False | c # cs \<Rightarrow> is_space c \<or> c = CHR ''>''))"

fun spec_matching_close :: "string \<Rightarrow> nat \<Rightarrow> nat \<Rightarrow> string \<Rightarrow> nat option" where
  "spec_matching_close tag depth pos [] = None"
| "spec_matching_close tag depth pos (c # cs) =
     (if starts_with (''</'' @ tag @ ''>'') (c # cs)
      then (if depth = 0 then Some pos else spec_matching_close tag (depth - 1) (Suc pos) cs)
      else if opens_tag tag (c # cs) then spec_matching_close tag (Suc depth) (Suc pos) cs
      else spec_matching_close tag depth (Suc pos) cs)"

definition spec_retag_matching :: "string \<Rightarrow> string option" where
  "spec_retag_matching line =
     (case search re_div_span None line of
        None \<Rightarrow> None
      | Some (pos, tag, rest) \<Rightarrow>
          (case spec_matching_close tag 0 0 rest of
             None \<Rightarrow> None
           | Some j \<Rightarrow>
               Some (take pos line @ ''<button type=\"button\"'' @
                     take (Suc j) (drop (pos + length tag + 1) line) @ ''</button>'' @
                     drop (j + length tag + 3) rest)))"

section \<open>The aggregator\<close>

text \<open>
  \<open>generate-report.js\<close> of the SEO plugin. The model starts from the parsed scan results;
  no scanner sets an identifier or a framework on a finding, so every finding
  receives the framework of the command line and a fresh identifier. The model builds the
  report that is serialised to \<open>seo-report.json\<close>; the serialisation and the Markdown
  rendering are not modelled.
\<close>

definition CATEGORIES :: "string list" where
  "CATEGORIES =
     [''rendering'', ''title'', ''meta-description'', ''headings'', ''semantic-html'',
      ''url-structure'', ''images'', ''internal-links'', ''gtm'']"

definition SEVERITY_ORDER :: "string \<rightharpoonup> int" where
  "SEVERITY_ORDER = map_of [(''critical'', 0), (''high'', 1), (''medium'', 2), (''low'', 3)]"

text \<open>\<open>CATEGORIES.indexOf(c)\<close>: the first position of \<open>c\<close>, or -1.\<close>

fun array_indexOf :: "string list \<Rightarrow> string \<Rightarrow> int" where
  "array_indexOf [] c = - 1"
| "array_indexOf (x # xs) c =
     (if x = c then 0 else (if array_indexOf xs c < 0 then - 1 else array_indexOf xs c + 1))"

text \<open>\<open>v || d\<close> for a number that may be undefined: undefined and 0 are both falsy.\<close>

definition or_default :: "int option \<Rightarrow> int \<Rightarrow> int" where
  "or_default v d = (case v of None \<Rightarrow> d | Some n \<Rightarrow> if n = 0 then d else n)"

text \<open>The comparison function passed to \<open>sort\<close>.\<close>

definition compareIssues :: "'a finding_scheme \<Rightarrow> 'a finding_scheme \<Rightarrow> int" where
  "compareIssues a b =
     (let catA = array_indexOf CATEGORIES (category a);
          catB = array_indexOf CATEGORIES (category b)
      in if catA \<noteq> catB then catA - catB
         else or_default (SEVERITY_ORDER (severity a)) 3 - or_default (SEVERITY_ORDER (severity b)) 3)"

text \<open>
  \<open>Array.prototype.sort\<close> is stable: elements that compare equal keep their order. It is
  modelled as insertion from the right, each element placed before the first element it
  does not exceed.
\<close>

fun insert_by :: "('a \<Rightarrow> 'a \<Rightarrow> int) \<Rightarrow> 'a \<Rightarrow> 'a list \<Rightarrow> 'a list" where
  "insert_by cmp x [] = [x]"
| "insert_by cmp x (y # ys) = (if cmp x y \<le> 0 then x # y # ys else y # insert_by cmp x ys)"

definition sort_by :: "('a \<Rightarrow> 'a \<Rightarrow> int) \<Rightarrow> 'a list \<Rightarrow> 'a list" where
  "sort_by cmp xs = foldr (insert_by cmp) xs []"

text \<open>\<open>s.padStart(n, c)\<close>.\<close>

definition padStart :: "nat \<Rightarrow> char \<Rightarrow> string \<Rightarrow> string" where
  "padStart n c s = replicate (n - length s) c @ s"

definition with_id :: "string \<Rightarrow> string \<Rightarrow> finding \<Rightarrow> issue" where
  "with_id ident fw f =
     \<lparr>severity = severity f, category = category f, issue_file = issue_file f,
      issue_line = issue_line f, problem = problem f, impact = impact f,
      recommendedFix = recommendedFix f, autoFixPossible = autoFixPossible f,
      wcagCriteria = wcagCriteria f, wcagLevel = wcagLevel f, issue_id = ident, framework = fw\<rparr>"

definition seo_id :: "nat \<Rightarrow> string" where
  "seo_id k = ''SEO-'' @ padStart 3 CHR ''0'' (show_nat (k + 1))"

definition assign_ids :: "string \<Rightarrow> finding list \<Rightarrow> issue list" where
  "assign_ids fw fs = map (\<lambda>(k, f). with_id (seo_id k) fw f) (enumerate 0 fs)"

record severity_counts =
  n_critical :: nat
  n_high :: nat
  n_medium :: nat
  n_low :: nat

record summary =
  totalIssues :: nat
  bySeverity :: severity_counts
  byCategory :: "(string \<times> nat) list"
  autoFixable :: nat

record report =
  generatedAt :: string
  projectRoot :: string
  report_framework :: string
  report_summary :: summary
  issues :: "issue list"

definition generateReport :: "string \<Rightarrow> string \<Rightarrow> string \<Rightarrow> finding list \<Rightarrow> report" where
  "generateReport date root fw scanResults =
     (let allIssues = assign_ids fw (sort_by compareIssues scanResults) in
      \<lparr>generatedAt = date, projectRoot = root, report_framework = fw,
       report_summary =
         \<lparr>totalIssues = length allIssues,
          bySeverity =
            \<lparr>n_critical = length (filter (\<lambda>i. severity i = ''critical'') allIssues),
             n_high = length (filter (\<lambda>i. severity i = ''high'') allIssues),
             n_medium = length (filter (\<lambda>i. severity i = ''medium'') allIssues),
             n_low = length (filter (\<lambda>i. severity i = ''low'') allIssues)\<rparr>,
          byCategory = map (\<lambda>cat. (cat, length (filter (\<lambda>i. category i = cat) allIssues))) CATEGORIES,
          autoFixable = length (filter autoFixPossible allIssues)\<rparr>,
       issues = allIssues\<rparr>)"

section \<open>Example inputs\<close>

text \<open>Concrete findings, environments and file systems on which the theorems below are run.\<close>

definition example_issue :: "string \<Rightarrow> string \<Rightarrow> bool \<Rightarrow> issue" where
  "example_issue ident cat auto =
     \<lparr>severity = ''high'', category = cat, issue_file = ''index.html'', issue_line = 1,
      problem = ''Defect'', impact = ''Impact'', recommendedFix = ''Remedy'', autoFixPossible = auto,
      wcagCriteria = None, wcagLevel = None, issue_id = ident, framework = ''html''\<rparr>"

definition example_env :: "issue list \<Rightarrow> env" where
  "example_env reported =
     \<lparr>execSync = (\<lambda>script i root w. (Exec_error ''spawnSync /bin/sh ETIMEDOUT'', w)),
      parse_output = (\<lambda>out. Parse_error ''Unexpected end of JSON input''),
      parse_report = (\<lambda>doc. Inr reported),
      typeError = ''Cannot read properties of null'',
      now = ''2026-01-01T00:00:00.000Z''\<rparr>"

definition example_world :: world where
  "example_world =
     \<lparr>files = [''/p/seo-report.json'' \<mapsto> ''{}'', ''/p/a11y-report.json'' \<mapsto> ''{}''], writes = [], write_error = (\<lambda>p. None)\<rparr>"

definition example_batch :: "issue list" where
  "example_batch =
     [example_issue ''X-001'' ''images'' True, example_issue ''X-002'' ''rendering'' False,
      example_issue ''X-003'' ''title'' False]"

text \<open>A decorative image whose tag runs over two lines, its finding and the file system holding it.\<close>

definition two_line_img :: string where
  "two_line_img = ''<img src=\"icon.png\"\<newline>/>''"

definition two_line_issue :: issue where
  "two_line_issue = with_id ''A11Y-001'' ''html'' (decorative_img_finding ''a.html'' 1)"

definition two_line_world :: world where
  "two_line_world = \<lparr>files = [''/p/a.html'' \<mapsto> two_line_img], writes = [], write_error = (\<lambda>p. None)\<rparr>"

text \<open>Two findings of one category as the scanners emit them, the less severe first.\<close>

definition title_finding :: "string \<Rightarrow> string \<Rightarrow> finding" where
  "title_finding sev f =
     \<lparr>severity = sev, category = ''title'', issue_file = f, issue_line = 1,
      problem = ''Page missing metadata title'', impact = ''Impact'',
      recommendedFix = ''Add metadata export'', autoFixPossible = True,
      wcagCriteria = None, wcagLevel = None\<rparr>"

definition high_then_critical :: "finding list" where
  "high_then_critical = [title_finding ''high'' ''a.tsx'', title_finding ''critical'' ''b.tsx'']"

text \<open>The finding \<open>scan-semantics.js\<close> emits for a \<open>div\<close> or \<open>span\<close> with a click handler and no role.\<close>

definition onclick_finding :: "string \<Rightarrow> string \<Rightarrow> nat \<Rightarrow> finding" where
  "onclick_finding tag relPath lineNum =
     \<lparr>severity = ''critical'', category = ''semantics'', issue_file = relPath,
      issue_line = int lineNum,
      problem = ''<'' @ tag @ ''> with onClick handler used as interactive control without semantic role'',
      impact = ''Screen readers announce this as generic text, not a clickable element. Keyboard users cannot activate it without explicit tabindex and key handlers.'',
      recommendedFix = ''Replace <'' @ tag @ '' onClick> with <button type=\"button\" onClick>. If it navigates, use <a href>. Preserve className and handlers.'',
      autoFixPossible = True, wcagCriteria = Some ''4.1.2'', wcagLevel = Some ''A''\<rparr>"

definition onclick_issue :: issue where
  "onclick_issue = with_id ''A11Y-001'' ''react'' (onclick_finding ''div'' ''App.jsx'' 1)"

text \<open>A clickable \<open>div\<close> that holds another \<open>div\<close>, and one that closes two lines further down.\<close>

definition nested_line :: string where
  "nested_line = ''<div onClick={go}><div class=\"x\">a</div></div>''"

definition nested_world :: world where
  "nested_world = \<lparr>files = [''/p/App.jsx'' \<mapsto> nested_line], writes = [], write_error = (\<lambda>p. None)\<rparr>"

definition one_line_world :: "string \<Rightarrow> world" where
  "one_line_world line = \<lparr>files = [''/p/App.jsx'' \<mapsto> line], writes = [], write_error = (\<lambda>p. None)\<rparr>"

definition three_lines :: "string list" where
  "three_lines = [''<div onClick={go}>'', ''  Save'', ''</div>'']"

definition three_lines_world :: world where
  "three_lines_world = \<lparr>files = [''/p/App.jsx'' \<mapsto> join_lines three_lines], writes = [], write_error = (\<lambda>p. None)\<rparr>"

text \<open>Image tags: with a source naming an icon, without any attribute, and split after its name.\<close>

definition icon_world :: world where
  "icon_world = \<lparr>files = [''/p/a.html'' \<mapsto> icon_tag ''icon.png''], writes = [], write_error = (\<lambda>p. None)\<rparr>"

definition split_img :: string where
  "split_img = ''<img\<newline>src=\"icon.png\">''"

definition split_img_world :: world where
  "split_img_world = \<lparr>files = [''/p/a.html'' \<mapsto> split_img], writes = [], write_error = (\<lambda>p. None)\<rparr>"

definition icon_issue :: issue where
  "icon_issue = with_id ''A11Y-001'' ''html'' (decorative_img_finding ''a.html'' 1)"

text \<open>
  A project built with \<open>react-scripts\<close> whose \<open>.env.example\<close> is empty, and the finding
  \<open>scan-gtm.js\<close> emits for it when the tag manager is not installed.
\<close>

definition gtm_finding :: "string \<Rightarrow> finding" where
  "gtm_finding relPath =
     \<lparr>severity = ''high'', category = ''gtm'', issue_file = relPath, issue_line = 1,
      problem = ''Google Tag Manager is not installed'',
      impact = ''Without GTM, tracking and analytics cannot collect data. This impacts marketing measurement, conversion tracking, and data-driven SEO decisions.'',
      recommendedFix = ''Install GTM by adding the official script and noscript snippets to index.html.'',
      autoFixPossible = True, wcagCriteria = None, wcagLevel = None\<rparr>"

definition gtm_issue :: issue where
  "gtm_issue = with_id ''SEO-001'' ''react'' (gtm_finding ''public/index.html'')"

definition react_scripts_deps :: "string \<Rightarrow> (string \<Rightarrow> bool) option" where
  "react_scripts_deps doc = Some (\<lambda>name. name = ''react-scripts'')"

definition gtm_world :: world where
  "gtm_world =
     \<lparr>files = [''/p/public/index.html'' \<mapsto> ''<html><head></head><body></body></html>'',
               ''/p/package.json'' \<mapsto> ''{\"dependencies\":{\"react-scripts\":\"5.0.1\"}}'',
               ''/p/.env.example'' \<mapsto> []],
      writes = [], write_error = (\<lambda>p. None)\<rparr>"

text \<open>What is seen of a run of a handler: whether it succeeded, and the paths it wrote, in order.\<close>

definition outcome :: "fix_result \<times> world \<Rightarrow> bool \<times> string list" where
  "outcome x = (success (fst x), map fst (writes (snd x)))"



text \<open>A page that exists and cannot be written, in a directory that can.\<close>

definition read_only_world :: world where
  "read_only_world =
     \<lparr>files = [''/p/a.html'' \<mapsto> icon_tag ''icon.png''], writes = [],
      write_error = (\<lambda>p. if p = ''/p/a.html'' then Some ''EACCES: permission denied, open /p/a.html''
                         else None)\<rparr>"

section \<open>The fix orchestrators: proofs\<close>

text \<open>The definitions that evaluating a run on the example inputs unfolds.\<close>

lemmas example_defs = example_env_def example_world_def example_issue_def path_join_def
  seo_targetIssues_def a11y_targetIssues_def toLowerCase_def toUpperCase_def lower_char_def upper_char_def
  upper_letters_def lower_letters_def is_id_filter_def


lemma seo_process_dry_world: "snd (seo_process e True root i s) = snd s"
  by (cases s) (simp add: seo_process_def)

lemma seo_loop_dry_world: "snd (seo_loop e True root is s) = snd s"
  by (induction "is" arbitrary: s) (simp_all add: seo_process_dry_world)

lemma seo_loop_recommendations:
  "l_recommendations (fst (seo_loop e d root is s)) =
     l_recommendations (fst s) @
       map (\<lambda>i. manual_entry i seo_manual_reason) (filter (\<lambda>i. category i = ''rendering'') is)"
proof (induction "is" arbitrary: s)
  case Nil
  show ?case by simp
next
  case (Cons i "is")
  obtain acc w where s: "s = (acc, w)" by (cases s)
  have "l_recommendations (fst (seo_process e d root i s)) =
        l_recommendations (fst s) @ (if category i = ''rendering'' then [manual_entry i seo_manual_reason] else [])"
    by (simp add: s seo_process_def split: prod.splits option.splits)
  then show ?case by (simp add: Cons.IH)
qed

lemma seo_loop_dry_fixed:
  "l_fixed (fst (seo_loop e True root is s)) =
     l_fixed (fst s) @
       map dry_run_entry (filter (\<lambda>i. category i \<noteq> ''rendering'' \<and> autoFixPossible i) is)"
proof (induction "is" arbitrary: s)
  case Nil
  show ?case by simp
next
  case (Cons i "is")
  obtain acc w where s: "s = (acc, w)" by (cases s)
  have "l_fixed (fst (seo_process e True root i s)) =
        l_fixed (fst s) @ (if category i \<noteq> ''rendering'' \<and> autoFixPossible i then [dry_run_entry i] else [])"
    by (simp add: s seo_process_def)
  then show ?case by (simp add: Cons.IH)
qed



lemma seo_loop_skipped_mono:
  "set (l_skipped (fst s)) \<subseteq> set (l_skipped (fst (seo_loop e d root is s)))"
proof (induction "is" arbitrary: s)
  case Nil
  show ?case by simp
next
  case (Cons i "is")
  have "set (l_skipped (fst s)) \<subseteq> set (l_skipped (fst (seo_process e d root i s)))"
    by (cases s) (auto simp add: seo_process_def split: prod.splits option.splits)
  with Cons.IH [of "seo_process e d root i s"] show ?case by auto
qed

lemma a11y_process_dry_world: "snd (a11y_process e True root i s) = snd s"
  by (cases s) (simp add: a11y_process_def)

lemma a11y_loop_dry_world: "snd (a11y_loop e True root is s) = snd s"
  by (induction "is" arbitrary: s) (simp_all add: a11y_process_dry_world)

lemma seo_applyFixes_dry_world: "snd (seo_applyFixes e root flt True w) = w"
proof -
  have "w' = w" if "seo_loop e True root is (acc, w) = (a, w')" for "is" acc a w'
    using seo_loop_dry_world [of e root "is" "(acc, w)"] that by simp
  then show ?thesis
    by (auto simp add: seo_applyFixes_def Let_def split: option.splits sum.splits prod.splits)
qed

lemma a11y_applyFixes_dry_world: "snd (a11y_applyFixes e root flt True w) = w"
proof -
  have "w' = w" if "a11y_loop e True root is (acc, w) = (a, w')" for "is" acc a w'
    using a11y_loop_dry_world [of e root "is" "(acc, w)"] that by simp
  then show ?thesis
    by (auto simp add: a11y_applyFixes_def Let_def split: option.splits sum.splits prod.splits)
qed

lemma written_neq: "written p c w \<noteq> w"
proof
  assume "written p c w = w"
  then have "writes (written p c w) = writes w" by simp
  then show False by (simp add: written_def)
qed

text \<open>
  Claim C10. When the selector matches no finding of the loaded report, either orchestrator
  prints a successful result with empty fixed, skipped and manual-review lists and leaves
  the file system as it found it, whether or not the run is a dry run. More generally a
  run changes the file system, and so creates the fix report, only if it is not a dry run
  and the selector matched at least one finding.
\<close>

theorem empty_selection_no_report:
  "(files w (path_join root ''seo-report.json'') = Some doc \<and> parse_report e doc = Inr allIssues \<and>
      seo_targetIssues flt allIssues = [] \<longrightarrow>
    seo_applyFixes e root flt dryRun w =
      (Printed \<lparr>seo_dryRun = dryRun,
         seo_message = Some (''No issues found matching filter: '' @ flt),
         seo_totalTargeted = None, seo_fixed = [], seo_skipped = [], recommendations = []\<rparr>, w)) \<and>
   (files w (path_join root ''a11y-report.json'') = Some doc' \<and> parse_report e doc' = Inr allIssues' \<and>
      a11y_targetIssues flt allIssues' = [] \<longrightarrow>
    a11y_applyFixes e root flt dryRun w =
      (Printed \<lparr>a11y_dryRun = dryRun,
         a11y_message = Some (''No issues found matching filter: '' @ flt),
         a11y_totalTargeted = None, a11y_fixed = [], a11y_skipped = [], manualReview = []\<rparr>, w)) \<and>
   (snd (seo_applyFixes e root flt dryRun w) \<noteq> w \<longrightarrow>
      \<not> dryRun \<and> (\<exists>t a. files w (path_join root ''seo-report.json'') = Some t \<and>
         parse_report e t = Inr a \<and> seo_targetIssues flt a \<noteq> [])) \<and>
   (snd (a11y_applyFixes e root flt dryRun w) \<noteq> w \<longrightarrow>
      \<not> dryRun \<and> (\<exists>t a. files w (path_join root ''a11y-report.json'') = Some t \<and>
         parse_report e t = Inr a \<and> a11y_targetIssues flt a \<noteq> []))"
proof (intro conjI impI)
  assume "files w (path_join root ''seo-report.json'') = Some doc \<and> parse_report e doc = Inr allIssues \<and>
      seo_targetIssues flt allIssues = []"
  then show "seo_applyFixes e root flt dryRun w =
      (Printed \<lparr>seo_dryRun = dryRun,
         seo_message = Some (''No issues found matching filter: '' @ flt),
         seo_totalTargeted = None, seo_fixed = [], seo_skipped = [], recommendations = []\<rparr>, w)"
    by (simp add: seo_applyFixes_def)
next
  assume "files w (path_join root ''a11y-report.json'') = Some doc' \<and> parse_report e doc' = Inr allIssues' \<and>
      a11y_targetIssues flt allIssues' = []"
  then show "a11y_applyFixes e root flt dryRun w =
      (Printed \<lparr>a11y_dryRun = dryRun,
         a11y_message = Some (''No issues found matching filter: '' @ flt),
         a11y_totalTargeted = None, a11y_fixed = [], a11y_skipped = [], manualReview = []\<rparr>, w)"
    by (simp add: a11y_applyFixes_def)
next
  assume ch: "snd (seo_applyFixes e root flt dryRun w) \<noteq> w"
  then show "\<not> dryRun" using seo_applyFixes_dry_world [of e root flt w] by (cases dryRun) auto
  from ch show "\<exists>t a. files w (path_join root ''seo-report.json'') = Some t \<and>
         parse_report e t = Inr a \<and> seo_targetIssues flt a \<noteq> []"
    by (auto simp add: seo_applyFixes_def Let_def split: option.splits sum.splits if_splits)
next
  assume ch: "snd (a11y_applyFixes e root flt dryRun w) \<noteq> w"
  then show "\<not> dryRun" using a11y_applyFixes_dry_world [of e root flt w] by (cases dryRun) auto
  from ch show "\<exists>t a. files w (path_join root ''a11y-report.json'') = Some t \<and>
         parse_report e t = Inr a \<and> a11y_targetIssues flt a \<noteq> []"
    by (auto simp add: a11y_applyFixes_def Let_def split: option.splits sum.splits if_splits)
qed

text \<open>The theorem on a selector that matches nothing, and on a real run over three findings.\<close>

theorem empty_selection_no_report_witness:
  "files example_world (path_join ''/p'' ''seo-report.json'') = Some ''{}'' \<and>
   files example_world (path_join ''/p'' ''a11y-report.json'') = Some ''{}'' \<and>
   parse_report (example_env example_batch) ''{}'' = Inr example_batch \<and>
   seo_targetIssues ''gtm'' example_batch = [] \<and>
   a11y_targetIssues ''gtm'' example_batch = [] \<and>
   seo_applyFixes (example_env example_batch) ''/p'' ''gtm'' False example_world =
     (Printed \<lparr>seo_dryRun = False, seo_message = Some ''No issues found matching filter: gtm'',
        seo_totalTargeted = None, seo_fixed = [], seo_skipped = [], recommendations = []\<rparr>,
      example_world) \<and>
   a11y_applyFixes (example_env example_batch) ''/p'' ''gtm'' False example_world =
     (Printed \<lparr>a11y_dryRun = False, a11y_message = Some ''No issues found matching filter: gtm'',
        a11y_totalTargeted = None, a11y_fixed = [], a11y_skipped = [], manualReview = []\<rparr>,
      example_world) \<and>
   snd (seo_applyFixes (example_env example_batch) ''/p'' ''all'' False example_world) \<noteq> example_world \<and>
   snd (a11y_applyFixes (example_env example_batch) ''/p'' ''all'' False example_world) \<noteq> example_world \<and>
   seo_targetIssues ''all'' example_batch \<noteq> [] \<and>
   a11y_targetIssues ''all'' example_batch \<noteq> []"
proof -
  note T = empty_selection_no_report [where e = "example_env example_batch" and root = "''/p''"
      and flt = "''gtm''" and dryRun = False and w = example_world and doc = "''{}''" and doc' = "''{}''"
      and allIssues = example_batch and allIssues' = example_batch]
  note U = empty_selection_no_report [where e = "example_env example_batch" and root = "''/p''"
      and flt = "''all''" and dryRun = False and w = example_world]
  have f1: "files example_world (path_join ''/p'' ''seo-report.json'') = Some ''{}''"
    and f2: "files example_world (path_join ''/p'' ''a11y-report.json'') = Some ''{}''"
    by (simp_all add: example_world_def path_join_def)
  have p: "parse_report (example_env example_batch) ''{}'' = Inr example_batch"
    by (simp add: example_env_def)
  have t1: "seo_targetIssues ''gtm'' example_batch = []"
    and t2: "a11y_targetIssues ''gtm'' example_batch = []"
    by (simp_all add: example_defs example_batch_def)
  have u1: "seo_targetIssues ''all'' example_batch \<noteq> []"
    and u2: "a11y_targetIssues ''all'' example_batch \<noteq> []"
    by (simp_all add: example_defs example_batch_def)
  have c1: "writes (snd (seo_applyFixes (example_env example_batch) ''/p'' ''all'' False example_world)) \<noteq> []"
    by code_simp
  have c2: "writes (snd (a11y_applyFixes (example_env example_batch) ''/p'' ''all'' False example_world)) \<noteq> []"
    by code_simp
  have e: "writes example_world = []" by (simp add: example_world_def)
  have d1: "snd (seo_applyFixes (example_env example_batch) ''/p'' ''all'' False example_world) \<noteq> example_world"
    using c1 e by auto
  have d2: "snd (a11y_applyFixes (example_env example_batch) ''/p'' ''all'' False example_world) \<noteq> example_world"
    using c2 e by auto
  from U d1 d2 have "\<not> False" by blast
  from T f1 f2 p t1 t2 d1 d2 u1 u2 show ?thesis by simp
qed

lemma a11y_loop_manualReview:
  "m_manualReview (fst (a11y_loop e d root is s)) =
     m_manualReview (fst s) @
       map (\<lambda>i. manual_entry i a11y_manual_reason) (filter (\<lambda>i. \<not> autoFixPossible i) is)"
proof (induction "is" arbitrary: s)
  case Nil
  show ?case by simp
next
  case (Cons i "is")
  obtain acc w where s: "s = (acc, w)" by (cases s)
  have "m_manualReview (fst (a11y_process e d root i s)) =
        m_manualReview (fst s) @ (if \<not> autoFixPossible i then [manual_entry i a11y_manual_reason] else [])"
    by (simp add: s a11y_process_def split: prod.splits option.splits)
  then show ?case by (simp add: Cons.IH)
qed

lemma a11y_loop_dry_fixed:
  "m_fixed (fst (a11y_loop e True root is s)) =
     m_fixed (fst s) @ map dry_run_entry (filter autoFixPossible is)"
proof (induction "is" arbitrary: s)
  case Nil
  show ?case by simp
next
  case (Cons i "is")
  obtain acc w where s: "s = (acc, w)" by (cases s)
  have "m_fixed (fst (a11y_process e True root i s)) =
        m_fixed (fst s) @ (if autoFixPossible i then [dry_run_entry i] else [])"
    by (simp add: s a11y_process_def)
  then show ?case by (simp add: Cons.IH)
qed



lemma a11y_loop_skipped_mono:
  "set (m_skipped (fst s)) \<subseteq> set (m_skipped (fst (a11y_loop e d root is s)))"
proof (induction "is" arbitrary: s)
  case Nil
  show ?case by simp
next
  case (Cons i "is")
  have "set (m_skipped (fst s)) \<subseteq> set (m_skipped (fst (a11y_process e d root i s)))"
    by (cases s) (auto simp add: a11y_process_def split: prod.splits option.splits)
  with Cons.IH [of "a11y_process e d root i s"] show ?case by auto
qed

lemma seo_loop_skipped_member:
  assumes "i \<in> set is" and "\<And>s. x \<in> set (l_skipped (fst (seo_process e d root i s)))"
  shows "x \<in> set (l_skipped (fst (seo_loop e d root is s)))"
  using assms(1)
proof (induction "is" arbitrary: s)
  case Nil
  then show ?case by simp
next
  case (Cons j "is")
  show ?case
  proof (cases "i = j")
    case True
    have "x \<in> set (l_skipped (fst (seo_process e d root j s)))" using assms(2) True by simp
    then show ?thesis using seo_loop_skipped_mono [of "seo_process e d root j s" e d root "is"] by auto
  next
    case False
    with Cons.prems have "i \<in> set is" by simp
    then show ?thesis using Cons.IH by simp
  qed
qed

lemma a11y_loop_skipped_member:
  assumes "i \<in> set is" and "\<And>s. x \<in> set (m_skipped (fst (a11y_process e d root i s)))"
  shows "x \<in> set (m_skipped (fst (a11y_loop e d root is s)))"
  using assms(1)
proof (induction "is" arbitrary: s)
  case Nil
  then show ?case by simp
next
  case (Cons j "is")
  show ?case
  proof (cases "i = j")
    case True
    have "x \<in> set (m_skipped (fst (a11y_process e d root j s)))" using assms(2) True by simp
    then show ?thesis using a11y_loop_skipped_mono [of "a11y_process e d root j s" e d root "is"] by auto
  next
    case False
    with Cons.prems have "i \<in> set is" by simp
    then show ?thesis using Cons.IH by simp
  qed
qed














text \<open>
  A run over a loaded report prints its result when it has no fix report to write, or
  when the fix report can be written in the file system the handlers have left.
\<close>

lemma seo_applyFixes_result:
  assumes "files w (path_join root ''seo-report.json'') = Some doc" "parse_report e doc = Inr allIssues"
    and "d \<or> write_error (snd (seo_loop e d root (seo_targetIssues flt allIssues)
             (\<lparr>l_fixed = [], l_skipped = [], l_recommendations = []\<rparr>, w)))
           (path_join root ''fix-report.md'') = None"
  shows "\<exists>w'. seo_applyFixes e root flt d w =
     (Printed \<lparr>seo_dryRun = d,
        seo_message = (if seo_targetIssues flt allIssues = [] then Some (''No issues found matching filter: '' @ flt) else None),
        seo_totalTargeted = (if seo_targetIssues flt allIssues = [] then None else Some (length (seo_targetIssues flt allIssues))),
        seo_fixed = l_fixed (fst (seo_loop e d root (seo_targetIssues flt allIssues) (\<lparr>l_fixed = [], l_skipped = [], l_recommendations = []\<rparr>, w))),
        seo_skipped = l_skipped (fst (seo_loop e d root (seo_targetIssues flt allIssues) (\<lparr>l_fixed = [], l_skipped = [], l_recommendations = []\<rparr>, w))),
        recommendations = l_recommendations (fst (seo_loop e d root (seo_targetIssues flt allIssues) (\<lparr>l_fixed = [], l_skipped = [], l_recommendations = []\<rparr>, w)))\<rparr>, w')"
  using assms
  by (auto simp add: seo_applyFixes_def Let_def seo_generateFixReport_def writeFileSync_def
      split: prod.splits)

lemma a11y_applyFixes_result:
  assumes "files w (path_join root ''a11y-report.json'') = Some doc" "parse_report e doc = Inr allIssues"
    and "d \<or> write_error (snd (a11y_loop e d root (a11y_targetIssues flt allIssues)
             (\<lparr>m_fixed = [], m_skipped = [], m_manualReview = []\<rparr>, w)))
           (path_join root ''a11y-fix-report.md'') = None"
  shows "\<exists>w'. a11y_applyFixes e root flt d w =
     (Printed \<lparr>a11y_dryRun = d,
        a11y_message = (if a11y_targetIssues flt allIssues = [] then Some (''No issues found matching filter: '' @ flt) else None),
        a11y_totalTargeted = (if a11y_targetIssues flt allIssues = [] then None else Some (length (a11y_targetIssues flt allIssues))),
        a11y_fixed = m_fixed (fst (a11y_loop e d root (a11y_targetIssues flt allIssues) (\<lparr>m_fixed = [], m_skipped = [], m_manualReview = []\<rparr>, w))),
        a11y_skipped = m_skipped (fst (a11y_loop e d root (a11y_targetIssues flt allIssues) (\<lparr>m_fixed = [], m_skipped = [], m_manualReview = []\<rparr>, w))),
        manualReview = m_manualReview (fst (a11y_loop e d root (a11y_targetIssues flt allIssues) (\<lparr>m_fixed = [], m_skipped = [], m_manualReview = []\<rparr>, w)))\<rparr>, w')"
  using assms
  by (auto simp add: a11y_applyFixes_def Let_def a11y_generateFixReport_def writeFileSync_def
      split: prod.splits)

text \<open>
  Claim C4, as amended. A dry run of either orchestrator leaves the file system as it
  found it, for every selector and every report: no write is made at all. In the SEO
  orchestrator the fixed list of a dry run is exactly one synthesized entry per targeted
  finding that is outside the rendering category and has \<open>autoFixPossible\<close> set; in the
  accessibility orchestrator every targeted finding outside the dynamic category with
  \<open>autoFixPossible\<close> set has its synthesized entry in the fixed list. The action of a
  synthesized entry is the text "Would apply fix: " followed by the recommended fix.
\<close>

theorem dry_run_pure:
  "snd (seo_applyFixes e root flt True w) = w \<and>
   snd (a11y_applyFixes e root flt True w) = w \<and>
   (files w (path_join root ''seo-report.json'') = Some doc \<and> parse_report e doc = Inr allIssues \<longrightarrow>
      (\<exists>r. fst (seo_applyFixes e root flt True w) = Printed r \<and>
           seo_fixed r = map dry_run_entry
             (filter (\<lambda>i. category i \<noteq> ''rendering'' \<and> autoFixPossible i) (seo_targetIssues flt allIssues)))) \<and>
   (files w (path_join root ''a11y-report.json'') = Some doc' \<and> parse_report e doc' = Inr allIssues' \<longrightarrow>
      (\<exists>r. fst (a11y_applyFixes e root flt True w) = Printed r \<and>
           (\<forall>i \<in> set (a11y_targetIssues flt allIssues').
              category i \<noteq> ''dynamic'' \<and> autoFixPossible i \<longrightarrow> dry_run_entry i \<in> set (a11y_fixed r)))) \<and>
   fixed_action (dry_run_entry i) = Some (''Would apply fix: '' @ recommendedFix i) \<and>
   fixed_dryRun (dry_run_entry i)"
proof (intro conjI impI)
  show "snd (seo_applyFixes e root flt True w) = w" by (rule seo_applyFixes_dry_world)
  show "snd (a11y_applyFixes e root flt True w) = w" by (rule a11y_applyFixes_dry_world)
next
  assume h: "files w (path_join root ''seo-report.json'') = Some doc \<and> parse_report e doc = Inr allIssues"
  from seo_applyFixes_result [of w root doc e allIssues True flt] h
  show "\<exists>r. fst (seo_applyFixes e root flt True w) = Printed r \<and>
           seo_fixed r = map dry_run_entry
             (filter (\<lambda>i. category i \<noteq> ''rendering'' \<and> autoFixPossible i) (seo_targetIssues flt allIssues))"
    by (auto simp add: seo_loop_dry_fixed)
next
  assume h: "files w (path_join root ''a11y-report.json'') = Some doc' \<and> parse_report e doc' = Inr allIssues'"
  from a11y_applyFixes_result [of w root doc' e allIssues' True flt] h
  show "\<exists>r. fst (a11y_applyFixes e root flt True w) = Printed r \<and>
           (\<forall>i \<in> set (a11y_targetIssues flt allIssues').
              category i \<noteq> ''dynamic'' \<and> autoFixPossible i \<longrightarrow> dry_run_entry i \<in> set (a11y_fixed r))"
    by (auto simp add: a11y_loop_dry_fixed)
next
  show "fixed_action (dry_run_entry i) = Some (''Would apply fix: '' @ recommendedFix i)"
    by (simp add: dry_run_entry_def fixed_entry_def)
  show "fixed_dryRun (dry_run_entry i)" by (simp add: dry_run_entry_def fixed_entry_def)
qed

text \<open>The theorem on a report with one auto-fixable image finding.\<close>

theorem dry_run_pure_witness:
  "files example_world (path_join ''/p'' ''seo-report.json'') = Some ''{}'' \<and>
   parse_report (example_env [example_issue ''X-001'' ''images'' True]) ''{}'' =
     Inr [example_issue ''X-001'' ''images'' True] \<and>
   files example_world (path_join ''/p'' ''a11y-report.json'') = Some ''{}'' \<and>
   example_issue ''X-001'' ''images'' True \<in>
     set (a11y_targetIssues ''all'' [example_issue ''X-001'' ''images'' True]) \<and>
   category (example_issue ''X-001'' ''images'' True) \<noteq> ''dynamic'' \<and>
   autoFixPossible (example_issue ''X-001'' ''images'' True) \<and>
   (\<exists>r. fst (seo_applyFixes (example_env [example_issue ''X-001'' ''images'' True]) ''/p'' ''all'' True
             example_world) = Printed r \<and>
        seo_fixed r = [dry_run_entry (example_issue ''X-001'' ''images'' True)]) \<and>
   (\<exists>r. fst (a11y_applyFixes (example_env [example_issue ''X-001'' ''images'' True]) ''/p'' ''all'' True
             example_world) = Printed r \<and>
        dry_run_entry (example_issue ''X-001'' ''images'' True) \<in> set (a11y_fixed r))"
  using dry_run_pure [of "example_env [example_issue ''X-001'' ''images'' True]" "''/p''" "''all''"
      example_world "''{}''" "[example_issue ''X-001'' ''images'' True]" "''{}''"
      "[example_issue ''X-001'' ''images'' True]"]
  by (simp add: example_defs)

text \<open>
  Claim C4 as stated fails in the SEO orchestrator: a targeted rendering finding with
  \<open>autoFixPossible\<close> set is not reported as fixed in a dry run; it is a recommendation.
\<close>

theorem dry_run_rendering_counterexample:
  "autoFixPossible (example_issue ''SEO-001'' ''rendering'' True) \<and>
   seo_targetIssues ''all'' [example_issue ''SEO-001'' ''rendering'' True] =
     [example_issue ''SEO-001'' ''rendering'' True] \<and>
   fst (seo_applyFixes (example_env [example_issue ''SEO-001'' ''rendering'' True]) ''/p'' ''all'' True
          example_world) =
     Printed \<lparr>seo_dryRun = True, seo_message = None, seo_totalTargeted = Some 1,
       seo_fixed = [], seo_skipped = [],
       recommendations = [manual_entry (example_issue ''SEO-001'' ''rendering'' True) seo_manual_reason]\<rparr>"
  by (simp add: example_defs seo_applyFixes_def seo_process_def)






text \<open>
  Claim C7, as amended. A finding with \<open>autoFixPossible\<close> unset is never dispatched: the
  step of either orchestrator leaves the file system alone and does not consult the
  environment. The SEO orchestrator appends a skipped entry with the reason "Auto-fix
  not available for this issue." when the finding is outside the rendering category; the
  accessibility orchestrator appends a manual-review entry with its own reason, in every
  category. The entries are in the lists of the result, which is printed when the run is
  a dry run or its fix report can be written.
\<close>

theorem non_auto_fixable_routing:
  "(category i \<noteq> ''rendering'' \<and> \<not> autoFixPossible i \<longrightarrow>
      seo_process e dryRun root i (acc, w) =
        (acc\<lparr>l_skipped := l_skipped acc @ [skipped_entry i (Some seo_skip_reason)]\<rparr>, w)) \<and>
   (\<not> autoFixPossible i \<longrightarrow>
      a11y_process e dryRun root i (acc', w) =
        (acc'\<lparr>m_manualReview := m_manualReview acc' @ [manual_entry i a11y_manual_reason]\<rparr>, w)) \<and>
   (files w (path_join root ''seo-report.json'') = Some doc \<and> parse_report e doc = Inr allIssues \<and>
    i \<in> set (seo_targetIssues flt allIssues) \<and> category i \<noteq> ''rendering'' \<and> \<not> autoFixPossible i \<and>
    (dryRun \<or> write_error (snd (seo_reached e root (seo_targetIssues flt allIssues) w
                                  (length (seo_targetIssues flt allIssues))))
                (path_join root ''fix-report.md'') = None) \<longrightarrow>
      (\<exists>r. fst (seo_applyFixes e root flt dryRun w) = Printed r \<and>
         skipped_entry i (Some seo_skip_reason) \<in> set (seo_skipped r))) \<and>
   (files w (path_join root ''a11y-report.json'') = Some doc' \<and> parse_report e doc' = Inr allIssues' \<and>
    i \<in> set (a11y_targetIssues flt allIssues') \<and> \<not> autoFixPossible i \<and>
    (dryRun \<or> write_error (snd (a11y_reached e root (a11y_targetIssues flt allIssues') w
                                  (length (a11y_targetIssues flt allIssues'))))
                (path_join root ''a11y-fix-report.md'') = None) \<longrightarrow>
      (\<exists>r. fst (a11y_applyFixes e root flt dryRun w) = Printed r \<and>
         manual_entry i a11y_manual_reason \<in> set (manualReview r)))"
proof (intro conjI impI)
  assume "category i \<noteq> ''rendering'' \<and> \<not> autoFixPossible i"
  then show "seo_process e dryRun root i (acc, w) =
        (acc\<lparr>l_skipped := l_skipped acc @ [skipped_entry i (Some seo_skip_reason)]\<rparr>, w)"
    by (simp add: seo_process_def)
next
  assume "\<not> autoFixPossible i"
  then show "a11y_process e dryRun root i (acc', w) =
        (acc'\<lparr>m_manualReview := m_manualReview acc' @ [manual_entry i a11y_manual_reason]\<rparr>, w)"
    by (simp add: a11y_process_def)
next
  assume h: "files w (path_join root ''seo-report.json'') = Some doc \<and> parse_report e doc = Inr allIssues \<and>
    i \<in> set (seo_targetIssues flt allIssues) \<and> category i \<noteq> ''rendering'' \<and> \<not> autoFixPossible i \<and>
    (dryRun \<or> write_error (snd (seo_reached e root (seo_targetIssues flt allIssues) w
                                  (length (seo_targetIssues flt allIssues))))
                (path_join root ''fix-report.md'') = None)"
  then have wr: "dryRun \<or> write_error (snd (seo_loop e dryRun root (seo_targetIssues flt allIssues)
             (\<lparr>l_fixed = [], l_skipped = [], l_recommendations = []\<rparr>, w)))
           (path_join root ''fix-report.md'') = None"
    by (cases dryRun) (simp_all add: seo_reached_def)
  have "skipped_entry i (Some seo_skip_reason) \<in> set (l_skipped (fst (seo_loop e dryRun root
          (seo_targetIssues flt allIssues) s)))" for s
  proof (rule seo_loop_skipped_member)
    show "i \<in> set (seo_targetIssues flt allIssues)" using h by simp
    fix s0
    show "skipped_entry i (Some seo_skip_reason) \<in> set (l_skipped (fst (seo_process e dryRun root i s0)))"
      using h by (cases s0) (simp add: seo_process_def)
  qed
  then show "\<exists>r. fst (seo_applyFixes e root flt dryRun w) = Printed r \<and>
         skipped_entry i (Some seo_skip_reason) \<in> set (seo_skipped r)"
    using seo_applyFixes_result [where flt = flt, OF _ _ wr] h by auto
next
  assume h: "files w (path_join root ''a11y-report.json'') = Some doc' \<and> parse_report e doc' = Inr allIssues' \<and>
    i \<in> set (a11y_targetIssues flt allIssues') \<and> \<not> autoFixPossible i \<and>
    (dryRun \<or> write_error (snd (a11y_reached e root (a11y_targetIssues flt allIssues') w
                                  (length (a11y_targetIssues flt allIssues'))))
                (path_join root ''a11y-fix-report.md'') = None)"
  then have wr: "dryRun \<or> write_error (snd (a11y_loop e dryRun root (a11y_targetIssues flt allIssues')
             (\<lparr>m_fixed = [], m_skipped = [], m_manualReview = []\<rparr>, w)))
           (path_join root ''a11y-fix-report.md'') = None"
    by (cases dryRun) (simp_all add: a11y_reached_def)
  from h show "\<exists>r. fst (a11y_applyFixes e root flt dryRun w) = Printed r \<and>
         manual_entry i a11y_manual_reason \<in> set (manualReview r)"
    using a11y_applyFixes_result [where flt = flt, OF _ _ wr]
    by (auto simp add: a11y_loop_manualReview)
qed

text \<open>The theorem on a title finding without automatic fix, selected by its category.\<close>

theorem non_auto_fixable_routing_witness:
  "category (example_issue ''X-003'' ''title'' False) \<noteq> ''rendering'' \<and>
   \<not> autoFixPossible (example_issue ''X-003'' ''title'' False) \<and>
   files example_world (path_join ''/p'' ''seo-report.json'') = Some ''{}'' \<and>
   files example_world (path_join ''/p'' ''a11y-report.json'') = Some ''{}'' \<and>
   parse_report (example_env example_batch) ''{}'' = Inr example_batch \<and>
   example_issue ''X-003'' ''title'' False \<in> set (seo_targetIssues ''title'' example_batch) \<and>
   example_issue ''X-003'' ''title'' False \<in> set (a11y_targetIssues ''title'' example_batch) \<and>
   (False \<or> write_error (snd (seo_reached (example_env example_batch) ''/p''
                                 (seo_targetIssues ''title'' example_batch) example_world
                                 (length (seo_targetIssues ''title'' example_batch))))
               (path_join ''/p'' ''fix-report.md'') = None) \<and>
   (False \<or> write_error (snd (a11y_reached (example_env example_batch) ''/p''
                                 (a11y_targetIssues ''title'' example_batch) example_world
                                 (length (a11y_targetIssues ''title'' example_batch))))
               (path_join ''/p'' ''a11y-fix-report.md'') = None) \<and>
   seo_process (example_env example_batch) False ''/p'' (example_issue ''X-003'' ''title'' False)
       (\<lparr>l_fixed = [], l_skipped = [], l_recommendations = []\<rparr>, example_world) =
     (\<lparr>l_fixed = [],
       l_skipped = [skipped_entry (example_issue ''X-003'' ''title'' False) (Some seo_skip_reason)],
       l_recommendations = []\<rparr>, example_world) \<and>
   a11y_process (example_env example_batch) False ''/p'' (example_issue ''X-003'' ''title'' False)
       (\<lparr>m_fixed = [], m_skipped = [], m_manualReview = []\<rparr>, example_world) =
     (\<lparr>m_fixed = [], m_skipped = [],
       m_manualReview = [manual_entry (example_issue ''X-003'' ''title'' False) a11y_manual_reason]\<rparr>,
      example_world) \<and>
   (\<exists>r. fst (seo_applyFixes (example_env example_batch) ''/p'' ''title'' False example_world) = Printed r \<and>
        skipped_entry (example_issue ''X-003'' ''title'' False) (Some seo_skip_reason) \<in> set (seo_skipped r)) \<and>
   (\<exists>r. fst (a11y_applyFixes (example_env example_batch) ''/p'' ''title'' False example_world) = Printed r \<and>
        manual_entry (example_issue ''X-003'' ''title'' False) a11y_manual_reason \<in> set (manualReview r))"
proof -
  let ?i = "example_issue ''X-003'' ''title'' False"
  let ?e = "example_env example_batch"
  note T = non_auto_fixable_routing [where i = ?i
      and e = ?e and root = "''/p''" and flt = "''title''" and dryRun = False
      and w = example_world and doc = "''{}''" and doc' = "''{}''" and allIssues = example_batch
      and allIssues' = example_batch
      and acc = "\<lparr>l_fixed = [], l_skipped = [], l_recommendations = []\<rparr>"
      and acc' = "\<lparr>m_fixed = [], m_skipped = [], m_manualReview = []\<rparr>"]
  have c: "category ?i \<noteq> ''rendering''" "\<not> autoFixPossible ?i" by (simp_all add: example_issue_def)
  have f1: "files example_world (path_join ''/p'' ''seo-report.json'') = Some ''{}''"
    and f2: "files example_world (path_join ''/p'' ''a11y-report.json'') = Some ''{}''"
    by (simp_all add: example_world_def path_join_def)
  have p: "parse_report ?e ''{}'' = Inr example_batch" by (simp add: example_env_def)
  have m1: "?i \<in> set (seo_targetIssues ''title'' example_batch)"
    and m2: "?i \<in> set (a11y_targetIssues ''title'' example_batch)"
    by (simp_all add: example_defs example_batch_def)
  have "write_error (snd (seo_reached ?e ''/p'' (seo_targetIssues ''title'' example_batch) example_world
                             (length (seo_targetIssues ''title'' example_batch))))
               (path_join ''/p'' ''fix-report.md'') = None"
    by code_simp
  then have wr1: "False \<or> write_error (snd (seo_reached ?e ''/p''
                                 (seo_targetIssues ''title'' example_batch) example_world
                                 (length (seo_targetIssues ''title'' example_batch))))
               (path_join ''/p'' ''fix-report.md'') = None" ..
  have "write_error (snd (a11y_reached ?e ''/p'' (a11y_targetIssues ''title'' example_batch) example_world
                             (length (a11y_targetIssues ''title'' example_batch))))
               (path_join ''/p'' ''a11y-fix-report.md'') = None"
    by code_simp
  then have wr2: "False \<or> write_error (snd (a11y_reached ?e ''/p''
                                 (a11y_targetIssues ''title'' example_batch) example_world
                                 (length (a11y_targetIssues ''title'' example_batch))))
               (path_join ''/p'' ''a11y-fix-report.md'') = None" ..
  from T c have "seo_process ?e False ''/p'' ?i
       (\<lparr>l_fixed = [], l_skipped = [], l_recommendations = []\<rparr>, example_world) =
     (\<lparr>l_fixed = [], l_skipped = [], l_recommendations = []\<rparr>
        \<lparr>l_skipped := l_skipped \<lparr>l_fixed = [], l_skipped = [], l_recommendations = []\<rparr> @
           [skipped_entry ?i (Some seo_skip_reason)]\<rparr>,
      example_world)"
    by blast
  then have p1: "seo_process ?e False ''/p'' ?i
       (\<lparr>l_fixed = [], l_skipped = [], l_recommendations = []\<rparr>, example_world) =
     (\<lparr>l_fixed = [],
       l_skipped = [skipped_entry ?i (Some seo_skip_reason)],
       l_recommendations = []\<rparr>, example_world)"
    by simp
  from T c have "a11y_process ?e False ''/p'' ?i
       (\<lparr>m_fixed = [], m_skipped = [], m_manualReview = []\<rparr>, example_world) =
     (\<lparr>m_fixed = [], m_skipped = [], m_manualReview = []\<rparr>
        \<lparr>m_manualReview := m_manualReview \<lparr>m_fixed = [], m_skipped = [], m_manualReview = []\<rparr> @
           [manual_entry ?i a11y_manual_reason]\<rparr>,
      example_world)"
    by blast
  then have p2: "a11y_process ?e False ''/p'' ?i
       (\<lparr>m_fixed = [], m_skipped = [], m_manualReview = []\<rparr>, example_world) =
     (\<lparr>m_fixed = [], m_skipped = [],
       m_manualReview = [manual_entry ?i a11y_manual_reason]\<rparr>,
      example_world)"
    by simp
  from T c f1 p m1 wr1
  have r1: "\<exists>r. fst (seo_applyFixes ?e ''/p'' ''title'' False example_world) = Printed r \<and>
        skipped_entry ?i (Some seo_skip_reason) \<in> set (seo_skipped r)"
    by blast
  from T c f2 p m2 wr2
  have r2: "\<exists>r. fst (a11y_applyFixes ?e ''/p'' ''title'' False example_world) = Printed r \<and>
        manual_entry ?i a11y_manual_reason \<in> set (manualReview r)"
    by blast
  from c f1 f2 p m1 m2 wr1 wr2 p1 p2 r1 r2 show ?thesis by blast
qed

text \<open>
  Claim C7 as stated fails in the accessibility orchestrator: an image finding with
  \<open>autoFixPossible\<close> unset goes to the manual-review list, and the skipped list stays empty.
\<close>

theorem a11y_non_auto_fixable_counterexample:
  "\<not> autoFixPossible (example_issue ''A11Y-001'' ''images'' False) \<and>
   a11y_targetIssues ''A11Y-001'' [example_issue ''A11Y-001'' ''images'' False] =
     [example_issue ''A11Y-001'' ''images'' False] \<and>
   fst (a11y_applyFixes (example_env [example_issue ''A11Y-001'' ''images'' False]) ''/p'' ''A11Y-001'' False
          example_world) =
     Printed \<lparr>a11y_dryRun = False, a11y_message = None, a11y_totalTargeted = Some 1,
       a11y_fixed = [], a11y_skipped = [],
       manualReview = [manual_entry (example_issue ''A11Y-001'' ''images'' False) a11y_manual_reason]\<rparr>"
  by code_simp

text \<open>
  Claim C6 at the failing input. The accessibility orchestrator has no test of the
  category: a dynamic finding with \<open>autoFixPossible\<close> set is skipped for want of a script in
  a real run, and is previewed as fixed in a dry run. Its manual-review list stays empty.
\<close>

theorem a11y_dynamic_auto_fixable_routing:
  "fst (a11y_applyFixes (example_env [example_issue ''A11Y-001'' ''dynamic'' True]) ''/p'' ''all'' False
          example_world) =
     Printed \<lparr>a11y_dryRun = False, a11y_message = None, a11y_totalTargeted = Some 1,
       a11y_fixed = [],
       a11y_skipped = [skipped_entry (example_issue ''A11Y-001'' ''dynamic'' True)
                         (Some ''No fix script for category: dynamic'')],
       manualReview = []\<rparr> \<and>
   fst (a11y_applyFixes (example_env [example_issue ''A11Y-001'' ''dynamic'' True]) ''/p'' ''all'' True
          example_world) =
     Printed \<lparr>a11y_dryRun = True, a11y_message = None, a11y_totalTargeted = Some 1,
       a11y_fixed = [dry_run_entry (example_issue ''A11Y-001'' ''dynamic'' True)],
       a11y_skipped = [], manualReview = []\<rparr>"
  by code_simp

text \<open>The SEO orchestrator has the test: a rendering finding is a recommendation, whatever its flag.\<close>

lemma seo_rendering_manual:
  "category i = ''rendering'' \<Longrightarrow>
   seo_process e dryRun root i (acc, w) =
     (acc\<lparr>l_recommendations := l_recommendations acc @ [manual_entry i seo_manual_reason]\<rparr>, w)"
  by (simp add: seo_process_def)

section \<open>The fix handlers: backup before write\<close>

text \<open>
  Every fix function of the two accessibility handlers either fails before it writes, or
  makes the two writes: the content read at the start to the backup path, then the new
  content to the file. When a write throws, the handler reports the failure; when it is
  the second one, the backup is already there.
\<close>

lemma write_with_backup_effect:
  assumes "write_with_backup p content new act w = (r, w')"
  shows "if success r
         then write_error w (p @ ''.bak'') = None \<and> write_error w p = None \<and>
              w' = written p new (written (p @ ''.bak'') content w)
         else w' = w \<or>
              (write_error w (p @ ''.bak'') = None \<and> write_error w p \<noteq> None \<and>
               reason r = write_error w p \<and> w' = written (p @ ''.bak'') content w)"
  using assms
  by (auto simp add: write_with_backup_def writeFileSync_def written_def failure_def succeeded_def
      split: option.splits)

lemma write_with_backup_writable:
  assumes "write_error w (p @ ''.bak'') = None" "write_error w p = None"
  shows "write_with_backup p content new act w =
           (succeeded act, written p new (written (p @ ''.bak'') content w))"
  using assms by (simp add: write_with_backup_def writeFileSync_def written_def)

lemma fixImgAlt_shape:
  "(\<exists>m. fixImgAlt i p content lines k d w = (failure m, w)) \<or>
   (\<exists>new act. fixImgAlt i p content lines k d w = write_with_backup p content new act w)"
  by (auto simp add: fixImgAlt_def Let_def split: option.splits prod.splits)

lemma fixNextImageAlt_shape:
  "(\<exists>m. fixNextImageAlt i p content lines k w = (failure m, w)) \<or>
   (\<exists>new act. fixNextImageAlt i p content lines k w = write_with_backup p content new act w)"
  by (auto simp add: fixNextImageAlt_def Let_def split: option.splits prod.splits)

lemma fixDivToButton_shape:
  "(\<exists>m. fixDivToButton i p content lines k w = (failure m, w)) \<or>
   (\<exists>new act. fixDivToButton i p content lines k w = write_with_backup p content new act w)"
  by (auto simp add: fixDivToButton_def Let_def split: option.splits prod.splits)

lemma addTabindex_shape:
  "(\<exists>m. addTabindex i p content lines k w = (failure m, w)) \<or>
   (\<exists>new act. addTabindex i p content lines k w = write_with_backup p content new act w)"
  by (auto simp add: addTabindex_def Let_def split: option.splits prod.splits)

lemma images_applyFix_shape:
  "(\<exists>m. images_applyFix i root w = (failure m, w)) \<or>
   (\<exists>content new act. files w (path_join root (issue_file i)) = Some content \<and>
      images_applyFix i root w = write_with_backup (path_join root (issue_file i)) content new act w)"
proof (cases "files w (path_join root (issue_file i))")
  case None
  then show ?thesis by (auto simp add: images_applyFix_def)
next
  case (Some content)
  let ?p = "path_join root (issue_file i)"
  let ?ls = "split_lines content"
  have "images_applyFix i root w = (failure ''Could not locate the issue line.'', w) \<or>
        (\<exists>d. images_applyFix i root w = fixImgAlt i ?p content ?ls (nat (lineIdx_of i)) d w) \<or>
        images_applyFix i root w = fixNextImageAlt i ?p content ?ls (nat (lineIdx_of i)) w \<or>
        images_applyFix i root w = (failure ''This image issue requires manual review.'', w)"
    using Some by (auto simp add: images_applyFix_def Let_def)
  then consider (a) m where "images_applyFix i root w = (failure m, w)"
    | (b) d where "images_applyFix i root w = fixImgAlt i ?p content ?ls (nat (lineIdx_of i)) d w"
    | (c) "images_applyFix i root w = fixNextImageAlt i ?p content ?ls (nat (lineIdx_of i)) w"
    by blast
  then show ?thesis
  proof cases
    case (a m)
    then show ?thesis by blast
  next
    case (b d)
    with fixImgAlt_shape [of i ?p content ?ls "nat (lineIdx_of i)" d w] Some show ?thesis by auto
  next
    case c
    with fixNextImageAlt_shape [of i ?p content ?ls "nat (lineIdx_of i)" w] Some show ?thesis by auto
  qed
qed

lemma semantics_applyFix_shape:
  "(\<exists>m. semantics_applyFix i root w = (failure m, w)) \<or>
   (\<exists>content new act. files w (path_join root (issue_file i)) = Some content \<and>
      semantics_applyFix i root w = write_with_backup (path_join root (issue_file i)) content new act w)"
proof (cases "files w (path_join root (issue_file i))")
  case None
  then show ?thesis by (auto simp add: semantics_applyFix_def)
next
  case (Some content)
  let ?p = "path_join root (issue_file i)"
  let ?ls = "split_lines content"
  have "semantics_applyFix i root w = fixDivToButton i ?p content ?ls (lineIdx_of i) w \<or>
        semantics_applyFix i root w = addTabindex i ?p content ?ls (lineIdx_of i) w \<or>
        semantics_applyFix i root w = (failure ''This semantics issue requires manual review.'', w)"
    using Some by (auto simp add: semantics_applyFix_def Let_def)
  then consider (a) "semantics_applyFix i root w = fixDivToButton i ?p content ?ls (lineIdx_of i) w"
    | (b) "semantics_applyFix i root w = addTabindex i ?p content ?ls (lineIdx_of i) w"
    | (c) m where "semantics_applyFix i root w = (failure m, w)"
    by blast
  then show ?thesis
  proof cases
    case a
    with fixDivToButton_shape [of i ?p content ?ls "lineIdx_of i" w] Some show ?thesis by auto
  next
    case b
    with addTabindex_shape [of i ?p content ?ls "lineIdx_of i" w] Some show ?thesis by auto
  next
    case (c m)
    then show ?thesis by blast
  qed
qed

text \<open>
  The image handler and the semantics handler keep the backup invariant for the file the
  finding names. A success means that the file existed and that the handler made exactly two
  writes, the content it had read to the path with \<open>.bak\<close> appended and then the new content
  to the file. A failure means that nothing was written, or that the write to the file
  threw after the backup was written: then the backup is the only write and the reason
  is the message of the error.
\<close>

lemma cited_handlers_backup_before_write:
  assumes "images_applyFix i root w = (r, w') \<or> semantics_applyFix i root w = (r, w')"
  shows "if success r
         then \<exists>content new.
                files w (path_join root (issue_file i)) = Some content \<and>
                w' = written (path_join root (issue_file i)) new
                       (written (path_join root (issue_file i) @ ''.bak'') content w) \<and>
                writes w' = writes w @ [(path_join root (issue_file i) @ ''.bak'', content),
                                        (path_join root (issue_file i), new)]
         else w' = w \<or>
              (\<exists>content.
                 files w (path_join root (issue_file i)) = Some content \<and>
                 write_error w (path_join root (issue_file i)) \<noteq> None \<and>
                 reason r = write_error w (path_join root (issue_file i)) \<and>
                 w' = written (path_join root (issue_file i) @ ''.bak'') content w)"
proof -
  let ?p = "path_join root (issue_file i)"
  from assms images_applyFix_shape [of i root w] semantics_applyFix_shape [of i root w]
  consider (f) m where "(r, w') = (failure m, w)"
    | (b) content new act where "files w ?p = Some content"
        "write_with_backup ?p content new act w = (r, w')"
    by metis
  then show ?thesis
  proof cases
    case (f m)
    then show ?thesis by (simp add: failure_def)
  next
    case (b content new act)
    from write_with_backup_effect [OF b(2)] b(1) show ?thesis
      by (cases "success r") (auto simp add: written_def)
  qed
qed

text \<open>
  On the read-only page the image handler reports the error of the second write as a
  failure, and the backup it wrote first stays.
\<close>

lemma failed_write_leaves_backup:
  "outcome (images_applyFix icon_issue ''/p'' read_only_world) = (False, [''/p/a.html.bak'']) \<and>
   reason (fst (images_applyFix icon_issue ''/p'' read_only_world)) =
     Some ''EACCES: permission denied, open /p/a.html''"
  by code_simp

text \<open>
  Claim C3 at the failing input. The handler \<open>apply-gtm-fix.js\<close> changes a file of which it
  keeps no backup. For a project that depends on \<open>react-scripts\<close> the identifier is a
  variable of the environment; the installation in \<open>public/index.html\<close> succeeds after
  three writes, the backup of the page, the page, and \<open>.env.example\<close>. That file existed
  and was empty, the handler writes the entry for the variable to it, and no file
  \<open>.env.example.bak\<close> is written.
\<close>

theorem env_example_written_without_backup:
  "detectGtmEnvVar react_scripts_deps ''/p'' gtm_world = Inr ''process.env.REACT_APP_GTM_ID'' \<and>
   files gtm_world ''/p/.env.example'' = Some [] \<and>
   outcome (installHtml gtm_issue ''/p'' ''/p/public/index.html''
              ''process.env.REACT_APP_GTM_ID'' gtm_world) =
     (True, [''/p/public/index.html.bak'', ''/p/public/index.html'', ''/p/.env.example'']) \<and>
   writes (projr (ensureEnvExample ''/p'' ''process.env.REACT_APP_GTM_ID'' gtm_world)) =
     [(''/p/.env.example'', env_entry ''REACT_APP_GTM_ID'')]"
  by code_simp

section \<open>The aggregator: order of the identifiers\<close>

text \<open>
  Claim C1 at the failing input. The rank of a severity is \<open>SEVERITY_ORDER[severity] || 3\<close>,
  and the rank 0 of critical is falsy: a critical finding is ranked 3, with low, behind
  high and medium. Of two title findings, the high one emitted first, the high one
  receives SEO-001 and the critical one SEO-002.
\<close>

theorem generateReport_critical_after_high:
  "map issue_id (issues (generateReport ''2026-01-01T00:00:00.000Z'' ''/p'' ''nextjs'' high_then_critical)) =
     [''SEO-001'', ''SEO-002''] \<and>
   map severity (issues (generateReport ''2026-01-01T00:00:00.000Z'' ''/p'' ''nextjs'' high_then_critical)) =
     [''high'', ''critical''] \<and>
   or_default (SEVERITY_ORDER ''critical'') 3 = 3 \<and>
   or_default (SEVERITY_ORDER ''high'') 3 = 1"
  by code_simp

section \<open>The image handler: a second application\<close>

text \<open>
  Claim C2 at the failing input: an image tag that closes on a later line. The scanner
  reports it on its first line. \<open>fixImgAlt\<close> finds no \<open>>\<close> on that line, so \<open>tagEnd\<close> is -1
  and \<open>substring(tagStart, 0)\<close> is the text before the tag, where the test for an \<open>alt\<close>
  attribute finds nothing, before and after the fix: the second application succeeds as
  the first did and inserts a second attribute. (\<open>fixNextImageAlt\<close> guards \<open>tagEnd\<close> and
  tests the whole line as well.)
\<close>

theorem fixImgAlt_second_application_succeeds:
  "scan_file ''html'' ''a.html'' two_line_img = [decorative_img_finding ''a.html'' 1] \<and>
   fst (images_applyFix two_line_issue ''/p'' two_line_world) =
     succeeded ''Added alt=\"\" (decorative) to <img> in a.html line 1.'' \<and>
   files (snd (images_applyFix two_line_issue ''/p'' two_line_world)) ''/p/a.html'' =
     Some ''<img alt=\"\" src=\"icon.png\"\<newline>/>'' \<and>
   fst (images_applyFix two_line_issue ''/p'' (snd (images_applyFix two_line_issue ''/p'' two_line_world))) =
     succeeded ''Added alt=\"\" (decorative) to <img> in a.html line 1.'' \<and>
   files (snd (images_applyFix two_line_issue ''/p''
      (snd (images_applyFix two_line_issue ''/p'' two_line_world)))) ''/p/a.html'' =
     Some ''<img alt=\"\" alt=\"\" src=\"icon.png\"\<newline>/>''"
  by code_simp

section \<open>Searching in text\<close>

text \<open>
  What a search result says about the text: where a pattern that does not look at the
  character before matches first, what a successful piece consumed, and which characters
  a pattern cannot match without.
\<close>

lemma search_hit: "m prev s = Some r \<Longrightarrow> search m prev s = Some (0, r)"
  by (cases s) simp_all

lemma search_miss:
  "m prev (c # cs) = None \<Longrightarrow>
   search m prev (c # cs) = map_option (\<lambda>(k, r). (Suc k, r)) (search m (Some c) cs)"
  by simp

lemma search_needs:
  assumes "\<And>p t r. m p t = Some r \<Longrightarrow> c \<in> set t" and "c \<notin> set s"
  shows "search m prev s = None"
  using assms(2)
proof (induction s arbitrary: prev)
  case Nil
  have "m prev [] = None" using assms(1) [of prev "[]"] by (cases "m prev []") auto
  then show ?case by simp
next
  case (Cons a s)
  have "m prev (a # s) = None"
    using assms(1) [of prev "a # s"] Cons.prems by (cases "m prev (a # s)") auto
  then show ?case using Cons by simp
qed

lemma scan_all_needs:
  assumes "\<And>p t r. m p t = Some r \<Longrightarrow> c \<in> set t" and "c \<notin> set s"
  shows "scan_all m 0 pos prev s = []"
  using assms(2)
proof (induction s arbitrary: pos prev)
  case Nil
  show ?case by simp
next
  case (Cons a s)
  have "m prev (a # s) = None"
    using assms(1) [of prev "a # s"] Cons.prems by (cases "m prev (a # s)") auto
  then show ?case using Cons by simp
qed

lemma scan_all_skip_all: "length s \<le> skip \<Longrightarrow> scan_all m skip pos prev s = []"
  by (induction s arbitrary: skip pos prev) auto

lemma search_append_hit:
  assumes "\<And>p q t. m p t = m q t" and "m None t = Some r"
  shows "search m prev (a @ t) \<noteq> None"
proof (induction a arbitrary: prev)
  case Nil
  have "m prev t = Some r" using assms by metis
  then show ?case by (simp add: search_hit)
next
  case (Cons x a)
  then show ?case by (cases "m prev (x # a @ t)") auto
qed

lemma lit_SomeD: "lit p s = Some r \<Longrightarrow> s = p @ r"
  by (auto simp add: lit_def starts_with_def split: if_splits) (metis append_take_drop_id)

lemma lit_ci_SomeD:
  "lit_ci p s = Some r \<Longrightarrow> \<exists>q. s = q @ r \<and> length q = length p \<and> map lower_char q = map lower_char p"
proof -
  assume a: "lit_ci p s = Some r"
  then have m: "map lower_char (take (length p) s) = map lower_char p" and r: "r = drop (length p) s"
    by (auto simp add: lit_ci_def starts_with_ci_def split: if_splits)
  from m have "length (take (length p) s) = length p" by (metis length_map)
  with m r show ?thesis by (intro exI [of _ "take (length p) s"]) simp
qed

lemma one_of_SomeD: "one_of P s = Some r \<Longrightarrow> \<exists>c. s = c # r \<and> P c"
  by (cases s) (auto simp add: one_of_def split: if_splits)

lemma star_SomeD: "star P s = Some r \<Longrightarrow> r = dropWhile P s"
  by (simp add: star_def)

lemma lower_char_lt: "lower_char c = CHR ''<'' \<Longrightarrow> c = CHR ''<''"
  by (auto simp add: lower_char_def upper_letters_def lower_letters_def split: if_splits)

lemma seqs_attr_eq_needs:
  assumes "seqs [lit name, star is_space, lit ''=''] s = Some r"
  shows "CHR ''='' \<in> set s"
proof -
  from assms obtain s1 where s1: "lit name s = Some s1" and e: "lit ''='' (dropWhile is_space s1) = Some r"
    by (auto simp add: star_def split: option.splits)
  from lit_SomeD [OF e] have "CHR ''='' \<in> set (dropWhile is_space s1)" by simp
  then have "CHR ''='' \<in> set s1" by (metis set_dropWhileD)
  with lit_SomeD [OF s1] show ?thesis by simp
qed

lemma re_attr_eq_SomeD:
  "re_attr_eq name p s = Some r \<Longrightarrow>
   at_boundary p s \<and> seqs [lit name, star is_space, lit ''=''] s = Some r"
  unfolding re_attr_eq_def by (metis option.distinct(1))

lemma re_attr_eq_needs: "re_attr_eq name p s = Some r \<Longrightarrow> CHR ''='' \<in> set s"
  using re_attr_eq_SomeD seqs_attr_eq_needs by blast

lemma re_open_ci_needs: "re_open_ci name p s = Some r \<Longrightarrow> CHR ''<'' \<in> set s"
proof -
  assume "re_open_ci name p s = Some r"
  then obtain s1 where "lit_ci (CHR ''<'' # name) s = Some s1"
    by (auto simp add: re_open_ci_def split: option.splits)
  from lit_ci_SomeD [OF this] obtain q where q: "s = q @ s1" "length q = length (CHR ''<'' # name)"
    "map lower_char q = map lower_char (CHR ''<'' # name)" by blast
  then obtain c q' where "q = c # q'" by (cases q) auto
  with q(3) have "lower_char c = CHR ''<''"
    by (simp add: lower_char_def upper_letters_def lower_letters_def)
  then have "c = CHR ''<''" by (rule lower_char_lt)
  with q(1) \<open>q = c # q'\<close> show ?thesis by simp
qed

lemma re_tag_needs: "re_tag name p s = Some r \<Longrightarrow> CHR ''<'' \<in> set s"
  by (auto simp add: re_tag_def dest: re_open_ci_needs split: option.splits if_splits)

lemma re_role_img_needs: "re_role_img p s = Some r \<Longrightarrow> CHR ''='' \<in> set s"
proof -
  assume "re_role_img p s = Some r"
  then obtain s1 s2 where s1: "lit_ci ''role'' s = Some s1"
    and e: "lit ''='' (dropWhile is_space s1) = Some s2"
    by (auto simp add: re_role_img_def star_def split: option.splits)
  from lit_SomeD [OF e] have "CHR ''='' \<in> set (dropWhile is_space s1)" by simp
  then have "CHR ''='' \<in> set s1" by (metis set_dropWhileD)
  moreover from lit_ci_SomeD [OF s1] obtain q where "s = q @ s1" by blast
  ultimately show ?thesis by simp
qed

lemma split_lines_single: "CHR 0x0A \<notin> set s \<Longrightarrow> split_lines s = [s]"
  by (induction s) auto

section \<open>An image whose source names an icon\<close>

lemma plainD:
  assumes "plain v"
  shows "CHR ''<'' \<notin> set v" "CHR ''>'' \<notin> set v" "CHR ''='' \<notin> set v" "CHR 0x22 \<notin> set v"
    "CHR 0x27 \<notin> set v" "CHR 0x0A \<notin> set v"
  using assms by (auto simp add: plain_def list_all_iff)

lemma plain_not_quote: "plain v \<Longrightarrow> c \<in> set v \<Longrightarrow> \<not> is_quote c"
  by (auto simp add: plain_def list_all_iff is_quote_def)

lemma takeWhile_plain:
  assumes "\<And>c. c \<in> set v \<Longrightarrow> P c" "\<not> P x"
  shows "takeWhile P (v @ x # xs) = v" "dropWhile P (v @ x # xs) = x # xs"
  using assms by (induction v) auto

lemma takeWhile_neq: "c \<notin> set v \<Longrightarrow> takeWhile (\<lambda>x. x \<noteq> c) (v @ ys) = v @ takeWhile (\<lambda>x. x \<noteq> c) ys"
  by (induction v) auto

lemma dropWhile_neq: "c \<notin> set v \<Longrightarrow> dropWhile (\<lambda>x. x \<noteq> c) (v @ ys) = dropWhile (\<lambda>x. x \<noteq> c) ys"
  by (induction v) auto

lemmas char_class_defs = is_space_def is_word_def is_quote_def lower_char_def upper_letters_def
  lower_letters_def digit_chars_def

lemma re_open_ci_img: "re_open_ci ''img'' p (CHR ''<'' # CHR ''i'' # CHR ''m'' # CHR ''g'' # CHR '' '' # r) = Some r"
  by (simp add: re_open_ci_def lit_ci_def starts_with_ci_def one_of_def char_class_defs)

lemma img_scan:
  assumes "plain v"
  shows "scan_all (re_tag ''img'') 0 0 None (icon_tag v) = [(0, ''src=\"'' @ v @ ''\"'')]"
proof -
  have m: "re_tag ''img'' None (icon_tag v) = Some (length (icon_tag v), ''src=\"'' @ v @ ''\"'')"
    using plainD(2) [OF assms]
    by (simp add: re_tag_def icon_tag_def re_open_ci_img takeWhile_neq dropWhile_neq tag_attrs_def
        is_space_def)
  obtain c cs where cs: "icon_tag v = c # cs" by (cases "icon_tag v") (auto simp add: icon_tag_def)
  have "scan_all (re_tag ''img'') 0 0 None (c # cs) =
        (0, ''src=\"'' @ v @ ''\"'') # scan_all (re_tag ''img'') (length (c # cs) - 1) (Suc 0) (Some c) cs"
    using m by (simp add: cs)
  also have "scan_all (re_tag ''img'') (length (c # cs) - 1) (Suc 0) (Some c) cs = []"
    by (rule scan_all_skip_all) simp
  finally show ?thesis by (simp add: cs)
qed

lemma search_attr_eq_None: "CHR ''='' \<notin> set s \<Longrightarrow> search (re_attr_eq name) p s = None"
  by (rule search_needs [where c = "CHR ''=''"]) (auto dest: re_attr_eq_needs)

lemma scan_role_img_Nil: "CHR ''='' \<notin> set s \<Longrightarrow> scan_all re_role_img 0 pos p s = []"
  by (rule scan_all_needs [where c = "CHR ''=''"]) (auto dest: re_role_img_needs)

lemma scan_tag_Nil: "CHR ''<'' \<notin> set s \<Longrightarrow> scan_all (re_tag name) 0 pos p s = []"
  by (rule scan_all_needs [where c = "CHR ''<''"]) (auto dest: re_tag_needs)

lemma re_attr_eq_miss: "c \<noteq> a \<Longrightarrow> re_attr_eq (a # name) p (c # cs) = None"
  by (simp add: re_attr_eq_def lit_def starts_with_def)

lemma no_alt_attrs:
  assumes "plain v"
  shows "\<not> test (re_attr_eq ''alt'') (''src=\"'' @ v @ ''\"'')"
  using plainD(3) [OF assms]
  by (simp add: test_def re_attr_eq_miss search_attr_eq_None)

lemma no_alt_tag:
  assumes "plain v"
  shows "\<not> test (re_attr_eq ''alt'') (icon_tag v)"
  using plainD(3) [OF assms]
  by (simp add: test_def icon_tag_def re_attr_eq_miss search_attr_eq_None)

lemma takeWhile_not_quote:
  assumes "plain v"
  shows "takeWhile (\<lambda>c. \<not> is_quote c) (v @ [CHR 0x22]) = v"
    "dropWhile (\<lambda>c. \<not> is_quote c) (v @ [CHR 0x22]) = [CHR 0x22]"
  using takeWhile_plain [of v "\<lambda>c. \<not> is_quote c" "CHR 0x22" "[]"] plain_not_quote [OF assms]
  by (simp_all add: is_quote_def)

lemma src_capture:
  assumes "plain v" "v \<noteq> []"
  shows "search re_src None (''src=\"'' @ v @ ''\"'') = Some (0, v)"
proof -
  have q: "is_quote (CHR 0x22)" by (simp add: is_quote_def)
  have "attr_value (''=\"'' @ v @ ''\"'') = Some v"
    using assms(2) by (simp add: attr_value_def star_def lit_def starts_with_def one_of_def
        takeWhile_not_quote [OF assms(1)] is_space_def q)
  then have "re_src None (''src=\"'' @ v @ ''\"'') = Some v"
    by (simp add: re_src_def at_boundary_def lit_def starts_with_def char_class_defs)
  then show ?thesis by (rule search_hit)
qed

lemma hints_icon: "test DECORATIVE_HINTS (a @ ''icon'' @ b)"
proof -
  have "DECORATIVE_HINTS None (''icon'' @ b) = Some ()"
    by (simp add: DECORATIVE_HINTS_def starts_with_ci_def)
  moreover have "DECORATIVE_HINTS p t = DECORATIVE_HINTS q t" for p q t
    by (simp add: DECORATIVE_HINTS_def)
  ultimately have "search DECORATIVE_HINTS None (a @ ''icon'' @ b) \<noteq> None"
    by (rule search_append_hit [rotated])
  then show ?thesis by (simp add: test_def)
qed

lemma icon_decorative:
  assumes "plain v" "v = a @ ''icon'' @ b"
  shows "isLikelyDecorative (''src=\"'' @ v @ ''\"'')"
proof -
  have "v \<noteq> []" using assms(2) by simp
  from src_capture [OF assms(1) this] hints_icon [of a b] assms(2)
  show ?thesis by (simp add: isLikelyDecorative_def)
qed

lemma icon_img_findings:
  assumes "plain v" "v = a @ ''icon'' @ b"
  shows "img_findings rel (icon_tag v) = [decorative_img_finding rel 1]"
  using no_alt_attrs [OF assms(1)] icon_decorative [OF assms]
  by (simp add: img_findings_def img_scan [OF assms(1)] lineNum_at_def)

lemma icon_next_image_findings:
  assumes "plain v"
  shows "next_image_findings rel (icon_tag v) = []"
proof -
  have "re_tag ''Image'' None (icon_tag v) = None"
    by (simp add: icon_tag_def re_tag_def re_open_ci_def lit_ci_def starts_with_ci_def char_class_defs)
  moreover have "scan_all (re_tag ''Image'') 0 (Suc 0) (Some CHR ''<'') (''img src=\"'' @ v @ ''\">'') = []"
    using plainD(1) [OF assms] by (intro scan_tag_Nil) simp
  ultimately have "scan_all (re_tag ''Image'') 0 0 None (icon_tag v) = []"
    by (simp add: icon_tag_def)
  then show ?thesis by (simp add: next_image_findings_def)
qed

lemma re_role_img_miss: "lower_char c \<noteq> CHR ''r'' \<Longrightarrow> re_role_img p (c # cs) = None"
  by (simp add: re_role_img_def lit_ci_def starts_with_ci_def char_class_defs)

lemma icon_role_img_findings:
  assumes "plain v"
  shows "role_img_findings rel (icon_tag v) = []"
proof -
  have r: "re_role_img p (CHR ''r'' # CHR ''c'' # cs) = None" for p cs
    by (simp add: re_role_img_def lit_ci_def starts_with_ci_def char_class_defs)
  have "scan_all re_role_img 0 pos (Some CHR ''='') (''\"'' @ v @ ''\">'') = []" for pos
    using plainD(3) [OF assms] by (intro scan_role_img_Nil) simp
  then have "scan_all re_role_img 0 0 None (icon_tag v) = []"
    by (simp add: icon_tag_def re_role_img_miss r char_class_defs)
  then show ?thesis by (simp add: role_img_findings_def)
qed

lemma icon_scan_file:
  assumes "plain v" "v = a @ ''icon'' @ b"
  shows "scan_file fw rel (icon_tag v) = [decorative_img_finding rel 1]"
  by (simp add: scan_file_def icon_img_findings [OF assms] icon_next_image_findings [OF assms(1)]
      icon_role_img_findings [OF assms(1)])

lemma search_char_first:
  "c \<notin> set pre \<Longrightarrow>
   search (\<lambda>prev r. if starts_with [c] r then Some () else None) p (pre @ c # post) =
     Some (length pre, ())"
  by (induction pre arbitrary: p) (auto simp add: starts_with_def)

lemma indexOf_char_first: "c \<notin> set pre \<Longrightarrow> indexOf (pre @ c # post) [c] 0 = int (length pre)"
  by (simp add: indexOf_def search_char_first)

lemma substring_all: "substring s 0 (int (length s)) = s"
  by (simp add: substring_def)

lemma decorative_problem:
  "includesStr (''Likely decorative <img> missing alt=\"\" '' @ dash @
      '' should have empty alt to be ignored by screen readers'') ''decorative''"
  "includesStr (''Likely decorative <img> missing alt=\"\" '' @ dash @
      '' should have empty alt to be ignored by screen readers'') ''missing alt''"
  by code_simp+

lemma show_int_1: "show_int 1 = ''1''"
  by code_simp

lemma icon_fixImgAlt:
  assumes "plain v"
  shows "fixImgAlt i p content [icon_tag v] 0 True w =
     write_with_backup p content (''<img alt=\"\" src=\"'' @ v @ ''\">'')
       (''Added alt=\"\" (decorative) to <img> in '' @ issue_file i @ '' line '' @
        show_int (issue_line i) @ ''.'') w"
proof -
  have s: "search (re_open_ci ''img'') None (icon_tag v) = Some (0, ''src=\"'' @ v @ ''\">'')"
    by (rule search_hit) (simp add: icon_tag_def re_open_ci_img)
  have "CHR ''>'' \<notin> set (''<img src=\"'' @ v @ ''\"'')" using plainD(2) [OF assms] by simp
  from indexOf_char_first [OF this, of "[]"]
  have e: "indexOf (icon_tag v) ''>'' 0 = int (length (icon_tag v)) - 1" by (simp add: icon_tag_def)
  show ?thesis
    using no_alt_tag [OF assms]
    by (simp add: fixImgAlt_def s e substring_all Let_def) (simp add: icon_tag_def)
qed

lemma icon_applyFix:
  assumes "plain v" "files w (path_join root rel) = Some (icon_tag v)"
  shows "images_applyFix (with_id ident fw (decorative_img_finding rel 1)) root w =
     write_with_backup (path_join root rel) (icon_tag v) (''<img alt=\"\" src=\"'' @ v @ ''\">'')
       (''Added alt=\"\" (decorative) to <img> in '' @ rel @ '' line 1.'') w"
proof -
  define i where "i = with_id ident fw (decorative_img_finding rel 1)"
  define pr where "pr = ''Likely decorative <img> missing alt=\"\" '' @ dash @
      '' should have empty alt to be ignored by screen readers''"
  have f: "issue_file i = rel" "issue_line i = 1" "problem i = pr"
    by (simp_all add: i_def pr_def with_id_def decorative_img_finding_def)
  have d: "includesStr pr ''decorative''" "includesStr pr ''missing alt''"
    unfolding pr_def by (rule decorative_problem)+
  have l: "split_lines (icon_tag v) = [icon_tag v]"
    using plainD(6) [OF assms(1)] by (intro split_lines_single) (simp add: icon_tag_def)
  have "images_applyFix i root w = fixImgAlt i (path_join root rel) (icon_tag v) [icon_tag v] 0 True w"
    using assms(2) d by (simp add: images_applyFix_def f l lineIdx_of_def Let_def)
  then show ?thesis
    unfolding i_def [symmetric] by (simp add: icon_fixImgAlt [OF assms(1)] f show_int_1)
qed

text \<open>
  Claim C9, as amended. Let a file hold one image tag on one line whose only attribute is a
  source in double quotes, the source being plain and containing \<open>icon\<close>. Then the image
  scanner reports exactly one finding, of category \<open>images\<close> and severity \<open>medium\<close>, whose
  problem text says that the image is likely decorative and misses \<open>alt=""\<close>; and the
  handler, given that finding, writes the original content to the \<open>.bak\<close> file, then the
  tag with \<open>alt=""\<close> right after \<open><img\<close> to the file, and returns a success whose action
  names the file and line 1, provided that the two paths can be written.
\<close>

theorem decorative_icon_scenario:
  assumes "plain v" and "v = a @ ''icon'' @ b"
    and "files w (path_join root rel) = Some (icon_tag v)"
    and "write_error w (path_join root rel @ ''.bak'') = None"
    and "write_error w (path_join root rel) = None"
  shows "scanImages fw [(rel, Some (icon_tag v))] = [decorative_img_finding rel 1] \<and>
         category (decorative_img_finding rel 1) = ''images'' \<and>
         severity (decorative_img_finding rel 1) = ''medium'' \<and>
         includesStr (problem (decorative_img_finding rel 1)) ''Likely decorative'' \<and>
         includesStr (problem (decorative_img_finding rel 1)) ''missing alt=\"\"'' \<and>
         images_applyFix (with_id ident fw (decorative_img_finding rel 1)) root w =
           (succeeded (''Added alt=\"\" (decorative) to <img> in '' @ rel @ '' line 1.''),
            written (path_join root rel) (''<img alt=\"\" src=\"'' @ v @ ''\">'')
              (written (path_join root rel @ ''.bak'') (icon_tag v) w))"
proof -
  have "icon_tag v \<noteq> []" by (simp add: icon_tag_def)
  then have scan: "scanImages fw [(rel, Some (icon_tag v))] = [decorative_img_finding rel 1]"
    by (simp add: scanImages_def icon_scan_file [OF assms(1,2)])
  have cat: "category (decorative_img_finding rel 1) = ''images''"
    and sev: "severity (decorative_img_finding rel 1) = ''medium''"
    by (simp_all add: decorative_img_finding_def)
  have pr: "problem (decorative_img_finding rel 1) =
      ''Likely decorative <img> missing alt=\"\" '' @ dash @
      '' should have empty alt to be ignored by screen readers''"
    by (simp add: decorative_img_finding_def)
  have likely: "includesStr (problem (decorative_img_finding rel 1)) ''Likely decorative''"
    and missing: "includesStr (problem (decorative_img_finding rel 1)) ''missing alt=\"\"''"
    unfolding pr dash_def by code_simp+
  have applied: "images_applyFix (with_id ident fw (decorative_img_finding rel 1)) root w =
           (succeeded (''Added alt=\"\" (decorative) to <img> in '' @ rel @ '' line 1.''),
            written (path_join root rel) (''<img alt=\"\" src=\"'' @ v @ ''\">'')
              (written (path_join root rel @ ''.bak'') (icon_tag v) w))"
    unfolding icon_applyFix [OF assms(1,3), of ident fw]
    by (rule write_with_backup_writable [OF assms(4,5)])
  from scan cat sev likely missing applied show ?thesis by blast
qed

theorem decorative_icon_scenario_witness:
  "plain ''icon.png'' \<and> ''icon.png'' = [] @ ''icon'' @ ''.png'' \<and>
   files icon_world (path_join ''/p'' ''a.html'') = Some (icon_tag ''icon.png'') \<and>
   write_error icon_world (path_join ''/p'' ''a.html'' @ ''.bak'') = None \<and>
   write_error icon_world (path_join ''/p'' ''a.html'') = None \<and>
   scanImages ''html'' [(''a.html'', Some (icon_tag ''icon.png''))] =
     [decorative_img_finding ''a.html'' 1] \<and>
   images_applyFix (with_id ''A11Y-001'' ''html'' (decorative_img_finding ''a.html'' 1)) ''/p''
       icon_world =
     (succeeded (''Added alt=\"\" (decorative) to <img> in '' @ ''a.html'' @ '' line 1.''),
      written (path_join ''/p'' ''a.html'') (''<img alt=\"\" src=\"'' @ ''icon.png'' @ ''\">'')
        (written (path_join ''/p'' ''a.html'' @ ''.bak'') (icon_tag ''icon.png'') icon_world))"
proof -
  have h1: "plain ''icon.png''" by (simp add: plain_def)
  have h2: "''icon.png'' = [] @ ''icon'' @ ''.png''" by simp
  have h3: "files icon_world (path_join ''/p'' ''a.html'') = Some (icon_tag ''icon.png'')"
    by (simp add: icon_world_def path_join_def)
  have h4: "write_error icon_world (path_join ''/p'' ''a.html'' @ ''.bak'') = None"
    and h5: "write_error icon_world (path_join ''/p'' ''a.html'') = None"
    by (simp_all add: icon_world_def)
  note T = decorative_icon_scenario [OF h1 h2 h3 h4 h5, of "''html''" "''A11Y-001''"]
  from h1 h2 h3 h4 h5 T show ?thesis by blast
qed

text \<open>
  Claim C9 as stated fails. An image tag with no attribute at all, in a file whose name
  contains \<open>icon\<close>, gets the critical finding of a missing \<open>alt\<close>, not the medium one: the
  scanner looks for the hint in the \<open>src\<close> and \<open>class\<close> attributes of the tag. Without a
  space after the name the tag is not reported at all.
\<close>

theorem img_without_attributes_counterexample:
  "scanImages ''html'' [(''icon.html'', Some ''<img >'')] = [missing_alt_finding ''icon.html'' 1] \<and>
   severity (missing_alt_finding ''icon.html'' 1) = ''critical'' \<and>
   scanImages ''html'' [(''icon.html'', Some ''<img>'')] = []"
  by code_simp

text \<open>
  The tag has to be on one line: when it breaks after its name the scanner reports it
  at the line of \<open><img\<close>, where the handler does not find a tag to change.
\<close>

lemma split_img_not_fixed:
  "scanImages ''html'' [(''a.html'', Some split_img)] = [decorative_img_finding ''a.html'' 1] \<and>
   fst (images_applyFix (with_id ''A11Y-001'' ''html'' (decorative_img_finding ''a.html'' 1)) ''/p''
          split_img_world) = failure ''Could not find <img> on target line.'' \<and>
   writes (snd (images_applyFix (with_id ''A11Y-001'' ''html'' (decorative_img_finding ''a.html'' 1))
          ''/p'' split_img_world)) = []"
  by code_simp

section \<open>Replacing a clickable element by a button\<close>

lemma search_SomeD:
  assumes indep: "\<And>p q t. m p t = m q t" and "search m prev s = Some (k, r)"
  shows "k \<le> length s \<and> m None (drop k s) = Some r \<and> (\<forall>j<k. m None (drop j s) = None)"
  using assms(2)
proof (induction s arbitrary: prev k)
  case Nil
  then show ?case using indep [of prev "[]" None] by (auto split: option.splits)
next
  case (Cons c cs)
  show ?case
  proof (cases "m prev (c # cs)")
    case (Some r')
    with Cons.prems have "k = 0" "r' = r" by auto
    with Some indep [of prev "c # cs" None] show ?thesis by simp
  next
    case None
    with Cons.prems obtain k' where k: "k = Suc k'" and s: "search m (Some c) cs = Some (k', r)"
      by (auto split: option.splits)
    from Cons.IH [OF s] have ih: "k' \<le> length cs" "m None (drop k' cs) = Some r"
      "\<forall>j<k'. m None (drop j cs) = None" by auto
    have "m None (drop j (c # cs)) = None" if "j < k" for j
    proof (cases j)
      case 0
      then show ?thesis using None indep [of prev "c # cs" None] by simp
    next
      case (Suc j')
      with that k ih(3) show ?thesis by simp
    qed
    with ih k show ?thesis by simp
  qed
qed

lemma search_SomeI:
  assumes indep: "\<And>p q t. m p t = m q t"
    and "k \<le> length s" "m None (drop k s) = Some r" "\<forall>j<k. m None (drop j s) = None"
  shows "search m prev s = Some (k, r)"
  using assms(2-)
proof (induction s arbitrary: prev k)
  case Nil
  then show ?case using indep [of prev "[]" None] by simp
next
  case (Cons c cs)
  show ?case
  proof (cases k)
    case 0
    with Cons.prems have "m prev (c # cs) = Some r" using indep [of prev "c # cs" None] by simp
    then show ?thesis using 0 by simp
  next
    case (Suc k')
    with Cons.prems have "m None (drop 0 (c # cs)) = None" by blast
    then have n: "m prev (c # cs) = None" using indep [of prev "c # cs" None] by simp
    have "search m (Some c) cs = Some (k', r)"
    proof (rule Cons.IH)
      show "k' \<le> length cs" using Cons.prems(1) Suc by simp
      show "m None (drop k' cs) = Some r" using Cons.prems(2) Suc by simp
      show "\<forall>j<k'. m None (drop j cs) = None"
      proof (intro allI impI)
        fix j assume "j < k'"
        then have "Suc j < k" using Suc by simp
        with Cons.prems(3) have "m None (drop (Suc j) (c # cs)) = None" by blast
        then show "m None (drop j cs) = None" by simp
      qed
    qed
    with n Suc show ?thesis by simp
  qed
qed

lemma search_NoneD:
  assumes indep: "\<And>p q t. m p t = m q t" and "search m prev s = None" "j \<le> length s"
  shows "m None (drop j s) = None"
  using assms(2-)
proof (induction s arbitrary: prev j)
  case Nil
  then show ?case using indep [of prev "[]" None] by (auto split: option.splits)
next
  case (Cons c cs)
  from Cons.prems(1) have n: "m prev (c # cs) = None" and s: "search m (Some c) cs = None"
    by (auto split: option.splits)
  show ?case
  proof (cases j)
    case 0
    then show ?thesis using n indep [of prev "c # cs" None] by simp
  next
    case (Suc j')
    with Cons.prems(2) have "j' \<le> length cs" by simp
    from Cons.IH [OF s this] Suc show ?thesis by simp
  qed
qed

lemma search_NoneI:
  assumes indep: "\<And>p q t. m p t = m q t" and "\<forall>j\<le>length s. m None (drop j s) = None"
  shows "search m prev s = None"
proof (cases "search m prev s")
  case None
  then show ?thesis .
next
  case (Some a)
  obtain k r where "a = (k, r)" by (cases a)
  with Some have "search m prev s = Some (k, r)" by simp
  from search_SomeD [OF indep this] assms(2) show ?thesis by auto
qed

text \<open>Occurrences of a substring.\<close>

lemma starts_with_iff: "starts_with n s \<longleftrightarrow> (\<exists>v. s = n @ v)"
  by (auto simp add: starts_with_def) (metis append_take_drop_id)

lemma includesStr_iff: "includesStr s n \<longleftrightarrow> (\<exists>u v. s = u @ n @ v)"
proof
  assume "includesStr s n"
  then obtain k where "search (\<lambda>prev r. if starts_with n r then Some () else None) None s = Some (k, ())"
    by (auto simp add: includesStr_def indexOf_def split: option.splits)
  from search_SomeD [OF _ this] have "starts_with n (drop k s)" by (auto split: if_splits)
  then obtain v where "drop k s = n @ v" by (auto simp add: starts_with_iff)
  then have "s = take k s @ n @ v" by (metis append_take_drop_id)
  then show "\<exists>u v. s = u @ n @ v" by blast
next
  assume "\<exists>u v. s = u @ n @ v"
  then obtain u v where s: "s = u @ n @ v" by blast
  have "search (\<lambda>prev r. if starts_with n r then Some () else None) None s \<noteq> None"
  proof
    assume "search (\<lambda>prev r. if starts_with n r then Some () else None) None s = None"
    from search_NoneD [OF _ this, of "length u"] s have "\<not> starts_with n (drop (length u) s)"
      by (auto split: if_splits)
    with s show False by (simp add: starts_with_iff)
  qed
  then show "includesStr s n" by (auto simp add: includesStr_def indexOf_def split: option.splits)
qed

lemma tag_overlap_front:
  assumes "us @ ws = CHR ''<'' # CHR ''/'' # n'" "CHR ''<'' \<notin> set n'" "ws \<noteq> []"
    and "CHR ''<'' # x # M' @ b = ws @ v" "x \<noteq> CHR ''/''"
  shows False
proof (cases us)
  case Nil
  with assms(1) have "ws = CHR ''<'' # CHR ''/'' # n'" by simp
  with assms(4,5) show False by simp
next
  case (Cons c us')
  with assms(1) have t: "us' @ ws = CHR ''/'' # n'" by simp
  from assms(3,4) have "hd ws = CHR ''<''" by (cases ws) auto
  with assms(3) have "CHR ''<'' \<in> set ws" by (metis hd_in_set)
  then have "CHR ''<'' \<in> set (us' @ ws)" by simp
  with t assms(2) show False by simp
qed

lemma tag_overlap_back:
  assumes "CHR ''<'' # x # M' = us @ ws" "CHR ''<'' \<notin> set (x # M')" "ws \<noteq> []"
    and "ws @ b = CHR ''<'' # CHR ''/'' # n' @ v" "x \<noteq> CHR ''/''"
  shows False
proof (cases us)
  case Nil
  with assms(1) have "ws = CHR ''<'' # x # M'" by simp
  with assms(4,5) show False by simp
next
  case (Cons c us')
  with assms(1) have t: "x # M' = us' @ ws" by simp
  from assms(3,4) have "hd ws = CHR ''<''" by (cases ws) auto
  with assms(3) have "CHR ''<'' \<in> set ws" by (metis hd_in_set)
  then have "CHR ''<'' \<in> set (us' @ ws)" by simp
  with t assms(2) show False by simp
qed

lemma occurrence_split:
  assumes "CHR ''<'' \<notin> set n'" "x \<noteq> CHR ''/''" "CHR ''<'' \<notin> set (x # M')"
  shows "(\<exists>u v. a @ (CHR ''<'' # x # M') @ b = u @ (CHR ''<'' # CHR ''/'' # n') @ v) \<longleftrightarrow>
         (\<exists>u v. a = u @ (CHR ''<'' # CHR ''/'' # n') @ v) \<or>
         (\<exists>u v. b = u @ (CHR ''<'' # CHR ''/'' # n') @ v)"
    (is "?L \<longleftrightarrow> ?A \<or> ?B")
proof
  assume "?A \<or> ?B"
  then show ?L
  proof
    assume ?A
    then obtain u v where "a = u @ (CHR ''<'' # CHR ''/'' # n') @ v" by blast
    then have "a @ (CHR ''<'' # x # M') @ b = u @ (CHR ''<'' # CHR ''/'' # n') @ (v @ (CHR ''<'' # x # M') @ b)"
      by simp
    then show ?L by blast
  next
    assume ?B
    then obtain u v where "b = u @ (CHR ''<'' # CHR ''/'' # n') @ v" by blast
    then have "a @ (CHR ''<'' # x # M') @ b = (a @ (CHR ''<'' # x # M') @ u) @ (CHR ''<'' # CHR ''/'' # n') @ v"
      by simp
    then show ?L by blast
  qed
next
  let ?n = "CHR ''<'' # CHR ''/'' # n'"
  let ?M = "CHR ''<'' # x # M'"
  assume ?L
  then obtain u v where e: "a @ ?M @ b = u @ ?n @ v" by blast
  then have "\<exists>us. (a = u @ us \<and> us @ ?M @ b = ?n @ v) \<or> (a @ us = u \<and> ?M @ b = us @ ?n @ v)"
    by (simp only: append_eq_append_conv2)
  then consider (1) us where "a = u @ us" "us @ ?M @ b = ?n @ v"
    | (2) us where "a @ us = u" "?M @ b = us @ ?n @ v"
    by blast
  then show "?A \<or> ?B"
  proof cases
    case 1
    from 1(2) have "\<exists>ws. (us = ?n @ ws \<and> ws @ ?M @ b = v) \<or> (us @ ws = ?n \<and> ?M @ b = ws @ v)"
      by (simp only: append_eq_append_conv2)
    then consider (a) ws where "us = ?n @ ws" | (b) ws where "us @ ws = ?n" "?M @ b = ws @ v"
      by blast
    then show ?thesis
    proof cases
      case a
      with 1(1) have "a = u @ ?n @ ws" by simp
      then show ?thesis by blast
    next
      case b
      show ?thesis
      proof (cases "ws = []")
        case True
        with b(1) 1(1) have "a = u @ ?n @ []" by simp
        then show ?thesis by blast
      next
        case False
        from b(1) have b1: "us @ ws = CHR ''<'' # CHR ''/'' # n'" by simp
        from b(2) have b2: "CHR ''<'' # x # M' @ b = ws @ v" by simp
        from tag_overlap_front [OF b1 assms(1) False b2 assms(2)] show ?thesis ..
      qed
    qed
  next
    case 2
    from 2(2) have "\<exists>ws. (?M = us @ ws \<and> ws @ b = ?n @ v) \<or> (?M @ ws = us \<and> b = ws @ ?n @ v)"
      by (simp only: append_eq_append_conv2)
    then consider (a) ws where "?M = us @ ws" "ws @ b = ?n @ v" | (b) ws where "b = ws @ ?n @ v"
      by blast
    then show ?thesis
    proof cases
      case b
      then show ?thesis by blast
    next
      case a
      show ?thesis
      proof (cases "ws = []")
        case True
        with a(2) have "b = [] @ ?n @ v" by simp
        then show ?thesis by blast
      next
        case False
        from a(1) have a1: "CHR ''<'' # x # M' = us @ ws" by simp
        from a(2) have a2: "ws @ b = CHR ''<'' # CHR ''/'' # n' @ v" by simp
        from tag_overlap_back [OF a1 assms(3) False a2 assms(2)] show ?thesis ..
      qed
    qed
  qed
qed

lemma includes_after_retag_aux:
  assumes t: "tag = x # t" "x \<noteq> CHR ''/''" "CHR ''<'' \<notin> set (x # t)"
  shows "includesStr (a @ ''<button type=\"button\"'' @ b) (''</'' @ tag @ ''>'') \<longleftrightarrow>
         includesStr (a @ (CHR ''<'' # tag) @ b) (''</'' @ tag @ ''>'')"
proof -
  have n: "CHR ''<'' \<notin> set (tag @ ''>'')" using t by simp
  have b: "CHR ''b'' \<noteq> CHR ''/''" "CHR ''<'' \<notin> set (CHR ''b'' # ''utton type=\"button\"'')"
    by simp_all
  note 1 = occurrence_split [OF n b, of a b]
  note 2 = occurrence_split [OF n t(2,3), of a b]
  have e2: "a @ (CHR ''<'' # tag) @ b = a @ (CHR ''<'' # x # t) @ b" by (simp add: t(1))
  have e3: "''</'' @ tag @ ''>'' = CHR ''<'' # CHR ''/'' # tag @ ''>''" by simp
  show ?thesis unfolding includesStr_iff e2 e3 using 1 2 by blast
qed

lemma includes_after_retag:
  assumes "tag = ''div'' \<or> tag = ''span''"
  shows "includesStr (a @ ''<button type=\"button\"'' @ b) (''</'' @ tag @ ''>'') \<longleftrightarrow>
         includesStr (a @ (CHR ''<'' # tag) @ b) (''</'' @ tag @ ''>'')"
  using assms
proof
  assume "tag = ''div''"
  then show ?thesis by (intro includes_after_retag_aux [of _ "CHR ''d''" "''iv''"]) simp_all
next
  assume "tag = ''span''"
  then show ?thesis by (intro includes_after_retag_aux [of _ "CHR ''s''" "''pan''"]) simp_all
qed

lemma re_open_iff:
  "re_open tag p s = Some rest \<longleftrightarrow> (\<exists>c. s = (CHR ''<'' # tag) @ c # rest \<and> is_space c)"
proof
  assume "re_open tag p s = Some rest"
  then obtain s1 where 1: "lit (CHR ''<'' # tag) s = Some s1" and 2: "one_of is_space s1 = Some rest"
    by (auto simp add: re_open_def split: option.splits)
  from lit_SomeD [OF 1] one_of_SomeD [OF 2] show "\<exists>c. s = (CHR ''<'' # tag) @ c # rest \<and> is_space c"
    by auto
next
  assume "\<exists>c. s = (CHR ''<'' # tag) @ c # rest \<and> is_space c"
  then show "re_open tag p s = Some rest"
    by (auto simp add: re_open_def lit_def starts_with_def one_of_def)
qed

lemma re_div_span_SomeD:
  assumes "re_div_span p s = Some (tag, rest)"
  shows "(tag = ''div'' \<or> tag = ''span'') \<and> re_open tag p s = Some rest"
  using assms by (auto simp add: re_div_span_def split: option.splits)

lemma re_div_span_of_open:
  assumes "tag = ''div'' \<or> tag = ''span''" "re_open tag p s = Some rest"
  shows "re_div_span p s = Some (tag, rest)"
proof -
  from assms(2) obtain c where s: "s = (CHR ''<'' # tag) @ c # rest" by (auto simp add: re_open_iff)
  from assms(1) show ?thesis
  proof
    assume "tag = ''div''"
    with assms(2) show ?thesis by (simp add: re_div_span_def)
  next
    assume t: "tag = ''span''"
    with s have "re_open ''div'' p s = None"
      by (simp add: re_open_def lit_def starts_with_def)
    with assms(2) t show ?thesis by (simp add: re_div_span_def)
  qed
qed

lemma re_open_indep: "re_open tag p t = re_open tag q t"
  by (simp add: re_open_def)

lemma re_div_span_indep: "re_div_span p t = re_div_span q t"
  unfolding re_div_span_def
  using re_open_indep [of "''div''" p t q] re_open_indep [of "''span''" p t q]
  by (simp split: option.splits)

lemma starts_with_indep:
  "(\<lambda>prev r. if starts_with n r then Some () else None) p t =
   (\<lambda>prev r. if starts_with n r then Some () else None) q t"
  by simp

text \<open>What the match of the opening tag says about the line.\<close>

lemma div_span_match:
  assumes "search re_div_span None line = Some (pos, tag, rest)"
  shows "tag = ''div'' \<or> tag = ''span''"
    and "\<exists>c. line = take pos line @ (CHR ''<'' # tag) @ c # rest \<and> is_space c"
    and "pos \<le> length line"
    and "drop (pos + length tag + 1) line = drop (length tag + 1) (drop pos line)"
    and "search (re_open tag) None line = Some (pos, rest)"
    and "indexOf line (take (length (drop pos line) - length rest) (drop pos line)) 0 = int pos"
proof -
  from search_SomeD [OF re_div_span_indep assms]
  have le: "pos \<le> length line" and m: "re_div_span None (drop pos line) = Some (tag, rest)"
    and first: "\<forall>j<pos. re_div_span None (drop j line) = None" by auto
  from re_div_span_SomeD [OF m] have tg: "tag = ''div'' \<or> tag = ''span''"
    and op: "re_open tag None (drop pos line) = Some rest" by auto
  show "tag = ''div'' \<or> tag = ''span''" by (rule tg)
  from op obtain c where d: "drop pos line = (CHR ''<'' # tag) @ c # rest" and c: "is_space c"
    by (auto simp add: re_open_iff)
  have "line = take pos line @ drop pos line" by simp
  with d c show "\<exists>c. line = take pos line @ (CHR ''<'' # tag) @ c # rest \<and> is_space c" by metis
  show "pos \<le> length line" by (rule le)
  show "drop (pos + length tag + 1) line = drop (length tag + 1) (drop pos line)"
    by (simp add: add.commute)
  have nf: "re_open tag None (drop j line) = None" if "j < pos" for j
  proof (cases "re_open tag None (drop j line)")
    case None
    then show ?thesis .
  next
    case (Some r)
    from re_div_span_of_open [OF tg Some] first that show ?thesis by simp
  qed
  show "search (re_open tag) None line = Some (pos, rest)"
    by (rule search_SomeI [where m = "re_open tag", OF re_open_indep le op]) (use nf in blast)
  have mt: "take (length (drop pos line) - length rest) (drop pos line) = (CHR ''<'' # tag) @ [c]"
    by (simp add: d)
  have "search (\<lambda>prev r. if starts_with ((CHR ''<'' # tag) @ [c]) r then Some () else None) None line =
        Some (pos, ())"
  proof (rule search_SomeI [where m = "\<lambda>prev r. if starts_with ((CHR ''<'' # tag) @ [c]) r then Some () else None",
      OF starts_with_indep le])
    show "(if starts_with ((CHR ''<'' # tag) @ [c]) (drop pos line) then Some () else None) = Some ()"
      by (simp add: d starts_with_def)
    show "\<forall>j<pos. (if starts_with ((CHR ''<'' # tag) @ [c]) (drop j line) then Some () else None) = None"
    proof (intro allI impI)
      fix j assume j: "j < pos"
      have "\<not> starts_with ((CHR ''<'' # tag) @ [c]) (drop j line)"
      proof
        assume "starts_with ((CHR ''<'' # tag) @ [c]) (drop j line)"
        then obtain v where "drop j line = ((CHR ''<'' # tag) @ [c]) @ v" by (auto simp add: starts_with_iff)
        then have "re_open tag None (drop j line) = Some v" using c by (simp add: re_open_iff)
        with nf [OF j] show False by simp
      qed
      then show "(if starts_with ((CHR ''<'' # tag) @ [c]) (drop j line) then Some () else None) = None"
        by simp
    qed
  qed
  then show "indexOf line (take (length (drop pos line) - length rest) (drop pos line)) 0 = int pos"
    unfolding indexOf_def mt by simp
qed

lemma substring_from: "pos \<le> length s \<Longrightarrow> substring s (int pos) (int (length s)) = drop pos s"
  by (simp add: substring_def)

lemma fix_closing_below_eq:
  "fix_closing_below n ls =
     map_option (\<lambda>j. ls[j := replace_first (ls ! j) n ''</button>'']) (first_line_with n ls)"
  by (induction ls) (auto simp add: option.map_comp comp_def)

lemma first_line_with_bound: "first_line_with n ls = Some j \<Longrightarrow> j < length ls"
  by (induction ls arbitrary: j) (auto split: if_splits)

lemma retag_same_line:
  assumes "k < length lines"
  shows "retag_lines tag pos k 0 lines =
         lines[k := replace_first (take pos (lines ! k) @ ''<button type=\"button\"'' @
                                    drop (pos + length tag + 1) (lines ! k))
                      (''</'' @ tag @ ''>'') ''</button>'']"
  using assms by (simp add: retag_lines_def Let_def)

lemma retag_later_line:
  assumes "k < length lines" "j < length (drop (Suc k) lines)"
  shows "retag_lines tag pos k (Suc j) lines =
         take k lines @
         (take pos (lines ! k) @ ''<button type=\"button\"'' @ drop (pos + length tag + 1) (lines ! k)) #
         (drop (Suc k) lines)[j := replace_first (drop (Suc k) lines ! j) (''</'' @ tag @ ''>'') ''</button>'']"
proof -
  let ?nl = "take pos (lines ! k) @ ''<button type=\"button\"'' @ drop (pos + length tag + 1) (lines ! k)"
  let ?below = "drop (Suc k) lines"
  have o: "lines[k := ?nl] = take k lines @ ?nl # ?below"
    using assms(1) by (rule upd_conv_take_nth_drop)
  have n: "(take k lines @ ?nl # ?below) ! (k + Suc j) = ?below ! j"
    using assms(1) by (simp add: nth_append)
  have u: "(take k lines @ ?nl # ?below)[k + Suc j := x] = take k lines @ ?nl # ?below[j := x]" for x
    using assms(1) by (simp add: list_update_append)
  show ?thesis
    unfolding retag_lines_def Let_def o n u ..
qed

text \<open>
  What \<open>fixDivToButton\<close> does when the target line \<open>k\<close> has a \<open>div\<close> or \<open>span\<close> opening tag, the
  first one at column \<open>pos\<close>. If the line from there on has the opening of an \<open>a\<close>,
  \<open>button\<close>, \<open>input\<close>, \<open>select\<close> or \<open>textarea\<close> element followed by white space, or an
  \<open>href\<close> attribute, or if no line from the target line on has a closing tag of the name,
  it returns a failure with the reason of that case and writes nothing. Otherwise it
  makes the two writes of the lines in which the opening tag is a button and, on the first
  line from the target line on that has a closing tag of the name, the first such closing
  tag is the closing tag of a button. It is the first closing tag of the line, wherever it
  stands, and no count of the elements opened in between is kept.
\<close>

lemma fixDivToButton_first_closing_tag:
  assumes "0 \<le> k" "k < int (length lines)"
    and "search re_div_span None (lines ! nat k) = Some (pos, tag, rest)"
  shows "fixDivToButton i p content lines k w =
     (if test re_interactive (drop pos (lines ! nat k))
      then (failure (''Nested interactive elements detected '' @ dash @ '' cannot safely convert.''), w)
      else if test (re_attr_eq ''href'') (drop pos (lines ! nat k))
      then (failure (''Element has href '' @ dash @ '' should be a link, not a button.''), w)
      else (case first_line_with (''</'' @ tag @ ''>'') (drop (nat k) lines) of
              None \<Rightarrow> (failure (''Could not find closing </'' @ tag @ ''> tag.''), w)
            | Some j \<Rightarrow>
                write_with_backup p content (join_lines (retag_lines tag pos (nat k) j lines))
                  (''Replaced <'' @ tag @ '' onClick> with <button type=\"button\"> in '' @
                   issue_file i @ '' line '' @ show_int (issue_line i) @ ''.'') w))"
proof -
  define line where "line = lines ! nat k"
  define close where "close = ''</'' @ tag @ ''>''"
  define newLine where
    "newLine = take pos line @ ''<button type=\"button\"'' @ drop (pos + length tag + 1) line"
  define below where "below = drop (Suc (nat k)) lines"
  have kl: "nat k < length lines" using assms(1,2) by simp
  note dm = div_span_match [OF assms(3) [folded line_def]]
  have full: "substring line (indexOf line (take (length (drop pos line) - length rest) (drop pos line)) 0)
                (int (length line)) = drop pos line"
    unfolding dm(6) using dm(3) by (rule substring_from)
  have ro: "replace_opening tag line = newLine"
    by (simp add: replace_opening_def dm(5) newLine_def)
  from dm(2) obtain c where l: "line = take pos line @ (CHR ''<'' # tag) @ c # rest" by blast
  have "drop (length tag + 1) (drop pos line) = c # rest"
  proof -
    have "drop pos line = (CHR ''<'' # tag) @ c # rest"
      using l dm(3) by (metis append_eq_conv_conj length_take min.absorb2)
    then show ?thesis by simp
  qed
  then have nl: "newLine = take pos line @ ''<button type=\"button\"'' @ c # rest"
    unfolding newLine_def dm(4) by simp
  have inc: "includesStr newLine close \<longleftrightarrow> includesStr line close"
    unfolding close_def using includes_after_retag [OF dm(1), of "take pos line" "c # rest"] nl l
    by simp
  have dr: "drop (nat k) lines = line # below"
    unfolding line_def below_def using kl by (simp add: Cons_nth_drop_Suc)
  have flw: "first_line_with close (drop (nat k) lines) =
             (if includesStr line close then Some 0 else map_option Suc (first_line_with close below))"
    by (simp add: dr)
  have body: "fixDivToButton i p content lines k w =
     (if test re_interactive (drop pos line)
      then (failure (''Nested interactive elements detected '' @ dash @ '' cannot safely convert.''), w)
      else if test (re_attr_eq ''href'') (drop pos line)
      then (failure (''Element has href '' @ dash @ '' should be a link, not a button.''), w)
      else (case (if includesStr newLine close
                  then Some (lines[nat k := replace_first newLine close ''</button>''])
                  else map_option (\<lambda>b. take (nat k) lines @ newLine # b) (fix_closing_below close below)) of
              None \<Rightarrow> (failure (''Could not find closing </'' @ tag @ ''> tag.''), w)
            | Some lines' \<Rightarrow>
                write_with_backup p content (join_lines lines')
                  (''Replaced <'' @ tag @ '' onClick> with <button type=\"button\"> in '' @
                   issue_file i @ '' line '' @ show_int (issue_line i) @ ''.'') w))"
  proof -
    have r: "\<not> (k < 0 \<or> int (length lines) \<le> k)" using assms(1,2) by simp
    show ?thesis
      unfolding fixDivToButton_def Let_def if_not_P [OF r] line_def [symmetric]
        assms(3) [folded line_def] option.case prod.case full ro close_def [symmetric]
        below_def [symmetric] ..
  qed
  have goal: "fixDivToButton i p content lines k w =
     (if test re_interactive (drop pos line)
      then (failure (''Nested interactive elements detected '' @ dash @ '' cannot safely convert.''), w)
      else if test (re_attr_eq ''href'') (drop pos line)
      then (failure (''Element has href '' @ dash @ '' should be a link, not a button.''), w)
      else (case first_line_with close (drop (nat k) lines) of
              None \<Rightarrow> (failure (''Could not find closing </'' @ tag @ ''> tag.''), w)
            | Some j \<Rightarrow>
                write_with_backup p content (join_lines (retag_lines tag pos (nat k) j lines))
                  (''Replaced <'' @ tag @ '' onClick> with <button type=\"button\"> in '' @
                   issue_file i @ '' line '' @ show_int (issue_line i) @ ''.'') w))"
  proof (cases "includesStr line close")
    case True
    have "retag_lines tag pos (nat k) 0 lines = lines[nat k := replace_first newLine close ''</button>'']"
      unfolding newLine_def close_def line_def by (rule retag_same_line [OF kl])
    with True show ?thesis
      unfolding body flw inc by simp
  next
    case False
    show ?thesis
    proof (cases "first_line_with close below")
      case None
      with False show ?thesis
        unfolding body flw inc fix_closing_below_eq by simp
    next
      case (Some j)
      have jb: "j < length (drop (Suc (nat k)) lines)"
        using first_line_with_bound [OF Some] by (simp add: below_def)
      have "retag_lines tag pos (nat k) (Suc j) lines =
            take (nat k) lines @ newLine # below[j := replace_first (below ! j) close ''</button>'']"
        unfolding newLine_def close_def line_def below_def by (rule retag_later_line [OF kl jb])
      with False Some show ?thesis
        unfolding body flw inc fix_closing_below_eq by simp
    qed
  qed
  then show ?thesis unfolding line_def close_def .
qed

text \<open>
  Claim C8 at the failing input. The clickable \<open>div\<close> holds another \<open>div\<close>. The handler
  rewrites the opening tag and reports a success, but the closing tag it rewrites is the
  one of the inner element, not the matching one, and the file it writes has mismatched
  tags. \<open>spec_retag_matching\<close> is the line with the matching closing tag rewritten.
\<close>

theorem fixDivToButton_rewrites_inner_closing_tag:
  "fst (semantics_applyFix onclick_issue ''/p'' nested_world) =
     succeeded ''Replaced <div onClick> with <button type=\"button\"> in App.jsx line 1.'' \<and>
   files (snd (semantics_applyFix onclick_issue ''/p'' nested_world)) ''/p/App.jsx'' =
     Some ''<button type=\"button\" onClick={go}><div class=\"x\">a</button></div>'' \<and>
   spec_retag_matching nested_line =
     Some ''<button type=\"button\" onClick={go}><div class=\"x\">a</div></button>''"
  by code_simp

text \<open>
  Two more inputs of the same kind. A closing tag that stands before the opening tag on
  the target line is the one rewritten; and a \<open>button\<close> without attributes inside the
  clickable element is not seen by the test for nested interactive elements, which asks
  for white space after the name, so that the result is a button inside a button. Both
  runs report a success.
\<close>

lemma fixDivToButton_rewrites_earlier_closing_tag:
  "fst (semantics_applyFix onclick_issue ''/p'' (one_line_world ''</div><div onClick={go}>x</div>'')) =
     succeeded ''Replaced <div onClick> with <button type=\"button\"> in App.jsx line 1.'' \<and>
   files (snd (semantics_applyFix onclick_issue ''/p''
                 (one_line_world ''</div><div onClick={go}>x</div>''))) ''/p/App.jsx'' =
     Some ''</button><button type=\"button\" onClick={go}>x</div>''"
  by code_simp

lemma fixDivToButton_nests_buttons:
  "fst (semantics_applyFix onclick_issue ''/p''
          (one_line_world ''<div onClick={go}><button>x</button></div>'')) =
     succeeded ''Replaced <div onClick> with <button type=\"button\"> in App.jsx line 1.'' \<and>
   files (snd (semantics_applyFix onclick_issue ''/p''
                 (one_line_world ''<div onClick={go}><button>x</button></div>''))) ''/p/App.jsx'' =
     Some ''<button type=\"button\" onClick={go}><button>x</button></button>''"
  by code_simp

text \<open>Where the element closes two lines further down, the handler rewrites both tags.\<close>

lemma fixDivToButton_three_lines:
  "fst (semantics_applyFix onclick_issue ''/p'' three_lines_world) =
     succeeded ''Replaced <div onClick> with <button type=\"button\"> in App.jsx line 1.'' \<and>
   writes (snd (semantics_applyFix onclick_issue ''/p'' three_lines_world)) =
     [(''/p/App.jsx.bak'', join_lines three_lines),
      (''/p/App.jsx'', join_lines [''<button type=\"button\" onClick={go}>'', ''  Save'', ''</button>''])]"
  by code_simp

end
